theory Spec2Isabelle
  imports Main
begin

section \<open>Host environment shared by both runners\<close>

text \<open>
  The two runner classes, \<^verbatim>\<open>MotionLightAutomationRunner\<close> (the Edge-Triggered Runner) and
  \<^verbatim>\<open>AlarmAutoArmRunner\<close> (the Scheduled-Window Runner), are embedded as state-passing
  functions. Every method takes the fields of \<^verbatim>\<open>this\<close> as a record and returns the updated
  record together with the list of calls it made to the \<^verbatim>\<open>automationService\<close>
  collaborator, in the order it made them.

  What the host supplies is an argument of the model:
  \<^item> the clock reading of \<^verbatim>\<open>new Date()\<close> (one reading per callback);
  \<^item> the outcome of every \<^verbatim>\<open>getHAEntityState\<close> and \<^verbatim>\<open>callHAService\<close> promise: a value, or
    rejection with an error message;
  \<^item> which pending timer the event loop fires next.

  \<^verbatim>\<open>logEvent\<close> and \<^verbatim>\<open>updateAutomationTriggerCount\<close> belong to the persistence service, whose
  code is outside the runner files; they are recorded as effects and taken to resolve
  (the runners call \<^verbatim>\<open>logEvent\<close> unguarded inside their own \<^verbatim>\<open>catch\<close> handlers).
  A resolved \<^verbatim>\<open>getHAEntityState\<close> yields an entity object with a \<^verbatim>\<open>state\<close> string.
  Except where polls that overlap are modelled, a callback runs from its first statement
  to its last without another callback of the same runner interleaving at an \<^verbatim>\<open>await\<close>.
  Time does not pass by itself: a timer carries
  the delay it was registered with, and the event loop may fire the pending timers in
  any order.
\<close>

type_synonym timer_id = nat

text \<open>A pending timer of the event loop: handle, delay argument in milliseconds,
  \<^verbatim>\<open>setInterval\<close> (recurring) or \<^verbatim>\<open>setTimeout\<close> (one-shot), and the callback closure.\<close>

datatype 'c timer = Timer (tid: timer_id) (delay_ms: int) (recurring: bool) (callback: 'c)

text \<open>Calls on the \<^verbatim>\<open>automationService\<close> collaborator. The automation id, which is the same
  in every call of one runner, is left out.\<close>

datatype effect =
    GetState string
  | CallService string string string
  | LogEvent string string
  | UpdateTriggerCount

text \<open>A settled promise: \<open>Inl msg\<close> is a rejection whose error has \<^verbatim>\<open>message\<close> \<open>msg\<close>.\<close>

type_synonym 'a result = "string + 'a"

text \<open>The entity object returned by \<^verbatim>\<open>getHAEntityState\<close>: its \<^verbatim>\<open>state\<close> string and the JSON
  text of its \<^verbatim>\<open>attributes\<close>.\<close>

record ha_entity =
  state :: string
  attributes :: string

text \<open>Decimal rendering of numbers inside template strings.\<close>

fun show_nat :: "nat \<Rightarrow> string" where
  "show_nat n =
     (if n < 10 then [''0123456789'' ! n]
      else show_nat (n div 10) @ [''0123456789'' ! (n mod 10)])"

declare show_nat.simps [simp del]

definition show_int :: "int \<Rightarrow> string" where
  "show_int i = (if i < 0 then ''-'' @ show_nat (nat (- i)) else show_nat (nat i))"

text \<open>\<^verbatim>\<open>String.prototype.includes\<close>.\<close>

fun starts_with :: "string \<Rightarrow> string \<Rightarrow> bool" where
  "starts_with s [] = True"
| "starts_with [] (c # cs) = False"
| "starts_with (x # xs) (c # cs) = (x = c \<and> starts_with xs cs)"

fun includes_str :: "string \<Rightarrow> string \<Rightarrow> bool" where
  "includes_str [] sub = (sub = [])"
| "includes_str (x # xs) sub = (starts_with (x # xs) sub \<or> includes_str xs sub)"

text \<open>\<^verbatim>\<open>xs.slice(-n)\<close> for a positive \<open>n\<close>: the last \<open>n\<close> elements, or all of \<open>xs\<close> when it
  is shorter.\<close>

definition slice_last :: "nat \<Rightarrow> 'a list \<Rightarrow> 'a list" where
  "slice_last n xs = drop (length xs - n) xs"

text \<open>The fields both classes have. \<open>timers\<close> and \<open>nextTimerId\<close> are not fields of the
  JavaScript object: they are the part of the event loop's timer table that this runner
  created, and the next fresh handle. Handles are positive, hence truthy.\<close>

record ('h, 'c) runner_base =
  isRunning :: bool
  stateHistory :: "'h list"
  errorCount :: nat
  maxErrors :: nat
  timers :: "'c timer list"
  nextTimerId :: timer_id

definition setTimer ::
  "int \<Rightarrow> bool \<Rightarrow> 'c \<Rightarrow> ('h, 'c, 'z) runner_base_scheme
     \<Rightarrow> timer_id \<times> ('h, 'c, 'z) runner_base_scheme" where
  "setTimer d rec cb r =
     (nextTimerId r,
      r\<lparr>timers := timers r @ [Timer (nextTimerId r) d rec cb],
        nextTimerId := Suc (nextTimerId r)\<rparr>)"

definition clearTimer ::
  "timer_id \<Rightarrow> ('h, 'c, 'z) runner_base_scheme \<Rightarrow> ('h, 'c, 'z) runner_base_scheme" where
  "clearTimer i r = r\<lparr>timers := filter (\<lambda>t. tid t \<noteq> i) (timers r)\<rparr>"

definition pending :: "timer_id \<Rightarrow> ('h, 'c, 'z) runner_base_scheme \<Rightarrow> bool" where
  "pending i r = (find (\<lambda>t. tid t = i) (timers r) \<noteq> None)"

record entry_base =
  timestamp :: int
  action :: string

section \<open>Edge-Triggered Runner: \<^verbatim>\<open>MotionLightAutomationRunner\<close>\<close>

text \<open>\<^verbatim>\<open>automation.settings\<close>. \<open>delay_seconds\<close> is what \<^verbatim>\<open>parseInt\<close> reads from the setting:
  \<open>None\<close> is \<^verbatim>\<open>NaN\<close> (setting absent or not numeric).\<close>

record motion_settings =
  motion_entity :: "string option"
  light_entity :: "string option"
  delay_seconds :: "int option"

text \<open>\<^verbatim>\<open>!x\<close> on an entity setting: absent or the empty string.\<close>

definition falsy :: "string option \<Rightarrow> bool" where
  "falsy x = (x = None \<or> x = Some [])"

text \<open>\<^verbatim>\<open>parseInt(settings.delay_seconds) || 15\<close>: \<^verbatim>\<open>NaN\<close> and \<open>0\<close> are falsy.\<close>

definition delaySeconds :: "motion_settings \<Rightarrow> int" where
  "delaySeconds st = (case delay_seconds st of None \<Rightarrow> 15 | Some n \<Rightarrow> if n = 0 then 15 else n)"

text \<open>The \<^verbatim>\<open>additionalData\<close> objects the runner attaches to history entries.\<close>

datatype additional =
    Null
  | ErrorInfo string
  | ErrorCountInfo string nat
  | DelayInfo int

record motion_entry = entry_base +
  motionState :: string
  errorCount_at :: nat
  consecutiveSuccesses_at :: nat
  additionalData :: additional

text \<open>The two timer callbacks of the class: the \<^verbatim>\<open>setInterval\<close> arrow function of \<^verbatim>\<open>start\<close>,
  and the \<^verbatim>\<open>setTimeout\<close> closure of the on-to-off branch with the \<^verbatim>\<open>motionEntity\<close>,
  \<^verbatim>\<open>lightEntity\<close> and \<^verbatim>\<open>delaySeconds\<close> it captured.\<close>

datatype motion_callback =
    PollTick
  | Countdown string string int

record motion_runner = "(motion_entry, motion_callback) runner_base" +
  settings :: motion_settings
  pollInterval :: "timer_id option"
  timeoutId :: "timer_id option"
  lastMotionState :: "string option"
  lastLightState :: string
  lastSuccessfulPoll :: "int option"
  consecutiveSuccesses :: nat

definition new_motion_runner :: "motion_settings \<Rightarrow> motion_runner" where
  "new_motion_runner st =
     \<lparr>isRunning = False, stateHistory = [], errorCount = 0, maxErrors = 10,
      timers = [], nextTimerId = 1,
      settings = st, pollInterval = None, timeoutId = None, lastMotionState = None,
      lastLightState = ''off'', lastSuccessfulPoll = None, consecutiveSuccesses = 0\<rparr>"

definition addStateHistory_motion ::
  "int \<Rightarrow> string \<Rightarrow> string \<Rightarrow> additional \<Rightarrow> motion_runner \<Rightarrow> motion_runner" where
  "addStateHistory_motion now ms act ad r =
     (let entry = \<lparr>timestamp = now, action = act, motionState = ms,
                   errorCount_at = errorCount r,
                   consecutiveSuccesses_at = consecutiveSuccesses r,
                   additionalData = ad\<rparr>;
          h = stateHistory r @ [entry]
      in r\<lparr>stateHistory := (if length h > 50 then slice_last 50 h else h)\<rparr>)"

definition stop_motion :: "motion_runner \<Rightarrow> motion_runner \<times> effect list" where
  "stop_motion r =
     (if \<not> isRunning r then (r, [])
      else
        let r1 = r\<lparr>isRunning := False\<rparr>;
            r2 = (case pollInterval r1 of
                    None \<Rightarrow> r1
                  | Some i \<Rightarrow> (clearTimer i r1)\<lparr>pollInterval := None\<rparr>);
            r3 = (case timeoutId r2 of
                    None \<Rightarrow> r2
                  | Some t \<Rightarrow> (clearTimer t r2)\<lparr>timeoutId := None\<rparr>)
        in (r3, [LogEvent ''stopped'' ''Automation stopped'']))"

definition initializeState_failed_motion ::
  "int \<Rightarrow> string \<Rightarrow> motion_runner \<Rightarrow> motion_runner \<times> effect list" where
  "initializeState_failed_motion now msg r =
     (addStateHistory_motion now ''error'' (''initialization_failed: '' @ msg) Null r,
      [LogEvent ''error'' (''Failed to initialize: '' @ msg)])"

definition initializeState_motion ::
  "int \<Rightarrow> ha_entity result \<Rightarrow> motion_runner \<Rightarrow> motion_runner \<times> effect list" where
  "initializeState_motion now fetch r =
     (if falsy (motion_entity (settings r))
      then initializeState_failed_motion now ''Motion entity not configured'' r
      else
        let motionEntity = the (motion_entity (settings r)) in
        case fetch of
          Inl msg \<Rightarrow>
            (let (r1, es) = initializeState_failed_motion now msg r
             in (r1, GetState motionEntity # es))
        | Inr motionState' \<Rightarrow>
            (let r1 = r\<lparr>lastMotionState := Some (state motionState'),
                         lastSuccessfulPoll := Some now\<rparr>
             in (addStateHistory_motion now (state motionState') ''initialized'' Null r1,
                 [GetState motionEntity])))"

definition start_motion ::
  "int \<Rightarrow> ha_entity result \<Rightarrow> motion_runner \<Rightarrow> motion_runner \<times> effect list" where
  "start_motion now fetch r =
     (if isRunning r then (r, [])
      else
        let r1 = r\<lparr>isRunning := True, errorCount := 0\<rparr>;
            (i, r2) = setTimer 750 True PollTick r1;
            r3 = r2\<lparr>pollInterval := Some i\<rparr>;
            (r4, es) = initializeState_motion now fetch r3
        in (r4, es @ [LogEvent ''started'' ''Motion light automation started'']))"

text \<open>The \<^verbatim>\<open>catch (entityError)\<close> handler around the state fetch of \<^verbatim>\<open>checkMotionState\<close>.\<close>

definition motion_state_error ::
  "int \<Rightarrow> string \<Rightarrow> motion_runner \<Rightarrow> motion_runner \<times> effect list" where
  "motion_state_error now msg r =
     (let r1 = r\<lparr>errorCount := errorCount r + 1, consecutiveSuccesses := 0\<rparr>;
          r2 = addStateHistory_motion now ''error'' ''motion_state_error''
                 (ErrorCountInfo msg (errorCount r1)) r1
      in (r2,
          if errorCount r2 = 1 \<or> errorCount r2 mod 5 = 0
          then [LogEvent ''error''
                  (''Failed to get motion state ('' @ show_nat (errorCount r2) @ ''/'' @
                   show_nat (maxErrors r2) @ ''): '' @ msg)]
          else []))"

text \<open>The outer \<^verbatim>\<open>catch (error)\<close> handler of \<^verbatim>\<open>checkMotionState\<close>.\<close>

definition general_error_motion ::
  "int \<Rightarrow> string \<Rightarrow> motion_runner \<Rightarrow> motion_runner \<times> effect list" where
  "general_error_motion now msg r =
     (let r1 = r\<lparr>errorCount := errorCount r + 1, consecutiveSuccesses := 0\<rparr>;
          r2 = addStateHistory_motion now ''error'' ''general_error'' (ErrorInfo msg) r1
      in (r2, [LogEvent ''error'' (''Error checking motion state: '' @ msg)]))"

text \<open>The off-to-on branch. \<open>call\<close> is the outcome of the \<^verbatim>\<open>turn_on\<close> service call: \<open>None\<close>
  when it resolves, \<open>Some msg\<close> when it rejects.\<close>

definition motion_detected ::
  "int \<Rightarrow> string \<Rightarrow> string \<Rightarrow> string option \<Rightarrow> motion_runner
     \<Rightarrow> motion_runner \<times> effect list" where
  "motion_detected now lightEntity currentMotionState call r =
     (let r1 = addStateHistory_motion now currentMotionState ''motion_detected'' Null r;
          r2 = (case timeoutId r1 of
                  None \<Rightarrow> r1
                | Some t \<Rightarrow>
                    addStateHistory_motion now currentMotionState ''countdown_cancelled'' Null
                      ((clearTimer t r1)\<lparr>timeoutId := None\<rparr>));
          (r3, es) =
            (case call of
               None \<Rightarrow>
                 (addStateHistory_motion now currentMotionState ''light_turned_on'' Null r2,
                  [CallService ''turn_on'' ''light'' lightEntity,
                   LogEvent ''triggered'' (''Motion detected - turned on '' @ lightEntity)])
             | Some msg \<Rightarrow>
                 (addStateHistory_motion now currentMotionState ''light_error''
                    (ErrorInfo msg) r2,
                  [CallService ''turn_on'' ''light'' lightEntity,
                   LogEvent ''error'' (''Failed to turn on light: '' @ msg)]))
      in (r3, es @ [UpdateTriggerCount]))"

text \<open>The on-to-off branch: the countdown is registered with \<^verbatim>\<open>setTimeout\<close> and its handle
  stored in \<^verbatim>\<open>timeoutId\<close>.\<close>

definition motion_stopped ::
  "int \<Rightarrow> string \<Rightarrow> string \<Rightarrow> int \<Rightarrow> string \<Rightarrow> motion_runner
     \<Rightarrow> motion_runner \<times> effect list" where
  "motion_stopped now motionEntity lightEntity delay currentMotionState r =
     (let r1 = addStateHistory_motion now currentMotionState ''countdown_started''
                 (DelayInfo delay) r;
          (t, r2) = setTimer (delay * 1000) False (Countdown motionEntity lightEntity delay) r1;
          r3 = r2\<lparr>timeoutId := Some t\<rparr>
      in (r3,
          [LogEvent ''triggered''
             (''Motion stopped - starting '' @ show_int delay @ ''s countdown'')]))"

text \<open>The body of the countdown closure. \<open>fetch\<close> is the outcome of its re-query of the
  motion entity, \<open>call\<close> the outcome of the \<^verbatim>\<open>turn_off\<close> service call.\<close>

definition countdown_fired ::
  "int \<Rightarrow> ha_entity result \<Rightarrow> string option \<Rightarrow> string \<Rightarrow> string \<Rightarrow> int \<Rightarrow> motion_runner
     \<Rightarrow> motion_runner \<times> effect list" where
  "countdown_fired now fetch call motionEntity lightEntity delay r =
     (let (r1, es) =
            (case fetch of
               Inl msg \<Rightarrow>
                 (addStateHistory_motion now ''unknown'' ''timeout_error'' (ErrorInfo msg) r,
                  [GetState motionEntity,
                   LogEvent ''error'' (''Error during timeout: '' @ msg)])
             | Inr finalMotionCheck \<Rightarrow>
                 if state finalMotionCheck = ''off''
                 then
                   (case call of
                      None \<Rightarrow>
                        (addStateHistory_motion now ''off'' ''light_turned_off'' Null r,
                         [GetState motionEntity,
                          CallService ''turn_off'' ''light'' lightEntity,
                          LogEvent ''action_executed''
                            (''No motion for '' @ show_int delay @ ''s - turned off '' @
                             lightEntity)])
                    | Some msg \<Rightarrow>
                        (addStateHistory_motion now ''off'' ''light_error'' (ErrorInfo msg) r,
                         [GetState motionEntity,
                          CallService ''turn_off'' ''light'' lightEntity,
                          LogEvent ''error'' (''Failed to turn off light: '' @ msg)]))
                 else
                   ((addStateHistory_motion now (state finalMotionCheck)
                       ''countdown_cancelled'' Null r)
                      \<lparr>lastMotionState := Some (state finalMotionCheck)\<rparr>,
                    [GetState motionEntity,
                     LogEvent ''triggered''
                       ''Motion detected during countdown - cancelled turn-off'']))
      in (r1\<lparr>timeoutId := None\<rparr>, es))"

text \<open>What \<^verbatim>\<open>checkMotionState\<close> does once the motion state has been fetched.\<close>

definition motion_state_fetched ::
  "int \<Rightarrow> string \<Rightarrow> string \<Rightarrow> int \<Rightarrow> string \<Rightarrow> string option \<Rightarrow> motion_runner
     \<Rightarrow> motion_runner \<times> effect list" where
  "motion_state_fetched now motionEntity lightEntity delay currentMotionState call r =
     (if lastMotionState r = None
      then (addStateHistory_motion now currentMotionState ''initialized'' Null
              (r\<lparr>lastMotionState := Some currentMotionState\<rparr>), [])
      else if lastMotionState r = Some currentMotionState
      then (r, [])
      else
        let (r1, es) =
              (if lastMotionState r = Some ''off'' \<and> currentMotionState = ''on''
               then motion_detected now lightEntity currentMotionState call r
               else if lastMotionState r = Some ''on'' \<and> currentMotionState = ''off''
               then motion_stopped now motionEntity lightEntity delay currentMotionState r
               else (r, []))
        in (r1\<lparr>lastMotionState := Some currentMotionState\<rparr>, es))"

definition checkMotionState ::
  "int \<Rightarrow> ha_entity result \<Rightarrow> string option \<Rightarrow> motion_runner
     \<Rightarrow> motion_runner \<times> effect list" where
  "checkMotionState now fetch call r =
     (if errorCount r \<ge> maxErrors r
      then
        (let (r1, es) = stop_motion r
         in (r1,
             LogEvent ''error''
               (''Automation stopped due to '' @ show_nat (errorCount r) @
                '' consecutive errors'') # es))
      else if falsy (motion_entity (settings r)) \<or> falsy (light_entity (settings r))
      then general_error_motion now ''Motion or light entity not configured'' r
      else
        let motionEntity = the (motion_entity (settings r));
            lightEntity = the (light_entity (settings r));
            delay = delaySeconds (settings r)
        in case fetch of
             Inl msg \<Rightarrow>
               (let (r1, es) = motion_state_error now msg r
                in (r1, GetState motionEntity # es))
           | Inr motionState' \<Rightarrow>
               (let r1 = r\<lparr>errorCount := 0,
                            consecutiveSuccesses := consecutiveSuccesses r + 1,
                            lastSuccessfulPoll := Some now\<rparr>;
                    (r2, es) = motion_state_fetched now motionEntity lightEntity delay
                                 (state motionState') call r1
                in (r2, GetState motionEntity # es)))"

text \<open>The event loop fires the pending timer with handle \<open>i\<close>; a handle that is not
  pending (never set, cleared, or a one-shot that already ran) fires nothing.\<close>

definition fire_motion ::
  "timer_id \<Rightarrow> int \<Rightarrow> ha_entity result \<Rightarrow> string option \<Rightarrow> motion_runner
     \<Rightarrow> motion_runner \<times> effect list" where
  "fire_motion i now fetch call r =
     (case find (\<lambda>t. tid t = i) (timers r) of
        None \<Rightarrow> (r, [])
      | Some t \<Rightarrow>
          (let r1 = (if recurring t then r else clearTimer i r)
           in case callback t of
                PollTick \<Rightarrow> checkMotionState now fetch call r1
              | Countdown motionEntity lightEntity delay \<Rightarrow>
                  countdown_fired now fetch call motionEntity lightEntity delay r1))"

text \<open>Everything that can happen to a runner: its owner calls \<^verbatim>\<open>start\<close> or \<^verbatim>\<open>stop\<close>, or the
  event loop fires one of its timers.\<close>

datatype motion_event =
    Start_motion int "ha_entity result"
  | Stop_motion
  | Fire_motion timer_id int "ha_entity result" "string option"

fun step_motion :: "motion_event \<Rightarrow> motion_runner \<Rightarrow> motion_runner \<times> effect list" where
  "step_motion (Start_motion now fetch) r = start_motion now fetch r"
| "step_motion Stop_motion r = stop_motion r"
| "step_motion (Fire_motion i now fetch call) r = fire_motion i now fetch call r"

fun run_motion :: "motion_event list \<Rightarrow> motion_runner \<Rightarrow> motion_runner \<times> effect list" where
  "run_motion [] r = (r, [])"
| "run_motion (e # es) r =
     (let (r1, out1) = step_motion e r;
          (r2, out2) = run_motion es r1
      in (r2, out1 @ out2))"

section \<open>Scheduled-Window Runner: \<^verbatim>\<open>AlarmAutoArmRunner\<close>\<close>

text \<open>A \<^verbatim>\<open>Date\<close> object, by the four methods the runner calls on it. \<^verbatim>\<open>toLocaleTimeString\<close>
  depends on the host's locale, so its text is part of the reading.\<close>

record date =
  getTime :: int
  getHours :: nat
  getMinutes :: nat
  toLocaleTimeString :: string

text \<open>\<^verbatim>\<open>isInArmingWindow\<close> reads \<^verbatim>\<open>getHours()\<close> and \<^verbatim>\<open>getMinutes()\<close> of \<^verbatim>\<open>new Date()\<close>; here
  they are its arguments.\<close>

definition isInArmingWindow :: "nat \<Rightarrow> nat \<Rightarrow> bool" where
  "isInArmingWindow hour minute =
     (let currentTime = hour * 60 + minute;
          armStart = 21 * 60;
          armEnd = 7 * 60
      in if armStart > armEnd
         then currentTime \<ge> armStart \<or> currentTime < armEnd
         else currentTime \<ge> armStart \<and> currentTime < armEnd)"

text \<open>A history entry. The \<^verbatim>\<open>metadata\<close> object spread into it only repeats \<open>inWindow\<close>
  and \<open>alarmState\<close> with the values they already have and adds locale-formatted time
  strings and counters; it is left out.\<close>

record alarm_entry = entry_base +
  details :: string
  alarmState :: "string option"
  inWindow :: bool

text \<open>The two timer callbacks of the class: the \<^verbatim>\<open>setInterval\<close> arrow function of \<^verbatim>\<open>start\<close>,
  and the \<^verbatim>\<open>setTimeout\<close> arrow function of \<^verbatim>\<open>armAlarmWithValidation\<close> that calls
  \<^verbatim>\<open>verifyArmStatus\<close>.\<close>

datatype alarm_callback =
    CheckTick
  | VerifyArm

record alarm_runner = "(alarm_entry, alarm_callback) runner_base" +
  checkInterval :: "timer_id option"
  lastAlarmState :: "string option"
  lastArmAttempt :: "date option"
  armCooldown :: int

definition new_alarm_runner :: alarm_runner where
  "new_alarm_runner =
     \<lparr>isRunning = False, stateHistory = [], errorCount = 0, maxErrors = 10,
      timers = [], nextTimerId = 1,
      checkInterval = None, lastAlarmState = None, lastArmAttempt = None,
      armCooldown = 5 * 60 * 1000\<rparr>"

definition alarm_panel :: string where
  "alarm_panel = ''alarm_control_panel.home_alarm''"

definition addStateHistory_alarm ::
  "date \<Rightarrow> string \<Rightarrow> string \<Rightarrow> alarm_runner \<Rightarrow> alarm_runner" where
  "addStateHistory_alarm now act det r =
     (let entry = \<lparr>timestamp = getTime now, action = act, details = det,
                   alarmState = lastAlarmState r,
                   inWindow = isInArmingWindow (getHours now) (getMinutes now)\<rparr>;
          h = stateHistory r @ [entry]
      in r\<lparr>stateHistory := (if length h > 100 then slice_last 100 h else h)\<rparr>)"

definition stop_alarm :: "alarm_runner \<Rightarrow> alarm_runner \<times> effect list" where
  "stop_alarm r =
     (if \<not> isRunning r then (r, [])
      else
        let r1 = r\<lparr>isRunning := False\<rparr>;
            r2 = (case checkInterval r1 of
                    None \<Rightarrow> r1
                  | Some i \<Rightarrow> (clearTimer i r1)\<lparr>checkInterval := None\<rparr>)
        in (r2, [LogEvent ''stopped'' ''Alarm auto-arm automation stopped'']))"

definition initializeState_alarm ::
  "date \<Rightarrow> ha_entity result \<Rightarrow> alarm_runner \<Rightarrow> alarm_runner \<times> effect list" where
  "initializeState_alarm now fetch r =
     (case fetch of
        Inl msg \<Rightarrow>
          (addStateHistory_alarm now ''error'' (''Initialization failed: '' @ msg) r,
           [GetState alarm_panel,
            LogEvent ''error'' (''Failed to initialize alarm state: '' @ msg)])
      | Inr alarmState' \<Rightarrow>
          (let r1 = r\<lparr>lastAlarmState := Some (state alarmState')\<rparr>
           in (addStateHistory_alarm now ''initialized''
                 (''Initial state: '' @ state alarmState') r1,
               [GetState alarm_panel])))"

text \<open>\<^verbatim>\<open>verifyArmStatus\<close>, the body of the 5-second verification timer.\<close>

definition verifyArmStatus ::
  "date \<Rightarrow> ha_entity result \<Rightarrow> alarm_runner \<Rightarrow> alarm_runner \<times> effect list" where
  "verifyArmStatus now fetch r =
     (case fetch of
        Inl msg \<Rightarrow>
          (addStateHistory_alarm now ''verify_error''
             (''Could not verify arm status: '' @ msg) r,
           [GetState alarm_panel])
      | Inr postArmState \<Rightarrow>
          (let newState = state postArmState
           in if newState = ''armed_away'' \<or> newState = ''armed_home''
              then (addStateHistory_alarm now ''verify_success''
                      (''Verification: alarm successfully armed ('' @ newState @ '')'') r,
                    [GetState alarm_panel])
              else if newState = ''pending''
              then (addStateHistory_alarm now ''verify_pending''
                      ''Verification: alarm in pending state (exit delay)'' r,
                    [GetState alarm_panel])
              else (addStateHistory_alarm now ''verify_failed''
                      (''Verification: alarm still '' @ newState @ '' after arm attempt'') r,
                    [GetState alarm_panel])))"

text \<open>The outcomes of the calls \<^verbatim>\<open>armAlarmWithValidation\<close> may make, in the order it makes
  them: the pre-arm state fetch, the \<^verbatim>\<open>alarm_arm_away\<close> call, and after an error whose
  message contains \<^verbatim>\<open>500\<close> the fetch of the entity's details and the \<^verbatim>\<open>alarm_arm_home\<close>
  call. For the two service calls \<open>None\<close> is a resolved promise.\<close>

record arm_outcomes =
  preArm :: "ha_entity result"
  arm_away :: "string option"
  alarmDetails :: "ha_entity result"
  arm_home :: "string option"

text \<open>The outer \<^verbatim>\<open>catch (error)\<close> handler of \<^verbatim>\<open>armAlarmWithValidation\<close>.\<close>

definition arm_error :: "date \<Rightarrow> string \<Rightarrow> alarm_runner \<Rightarrow> alarm_runner \<times> effect list" where
  "arm_error now msg r =
     (let errorDetails =
            (if includes_str msg ''500''
             then msg @ '' - This usually means the alarm panel rejected the command. Check: 1) Alarm is properly configured, 2) All sensors are closed, 3) Alarm panel is ready to arm''
             else msg)
      in (addStateHistory_alarm now ''arm_error'' (''Failed to arm: '' @ errorDetails) r,
          [LogEvent ''error'' (''Failed to arm alarm: '' @ errorDetails)]))"

text \<open>The tail of \<^verbatim>\<open>armAlarmWithValidation\<close> after an arm command went through: history,
  event, and the untracked 5-second verification timer (the handle \<^verbatim>\<open>setTimeout\<close> returns
  is dropped).\<close>

definition arm_completed :: "date \<Rightarrow> alarm_runner \<Rightarrow> alarm_runner \<times> effect list" where
  "arm_completed now r =
     (let r1 = addStateHistory_alarm now ''armed'' ''Arm command completed'' r;
          (t, r2) = setTimer 5000 False VerifyArm r1
      in (r2,
          [LogEvent ''action_executed''
             (''Auto-armed alarm during night hours ('' @ toLocaleTimeString now @ '')'')]))"

definition armAlarmWithValidation ::
  "date \<Rightarrow> arm_outcomes \<Rightarrow> alarm_runner \<Rightarrow> alarm_runner \<times> effect list" where
  "armAlarmWithValidation now out r =
     (case preArm out of
        Inl msg \<Rightarrow>
          (let (r1, es) = arm_error now msg r in (r1, GetState alarm_panel # es))
      | Inr preArmState \<Rightarrow>
          if state preArmState \<noteq> ''disarmed''
          then (addStateHistory_alarm now ''abort_arm''
                  (''Alarm changed to '' @ state preArmState @ '' before arming'') r,
                [GetState alarm_panel])
          else
            let r1 = addStateHistory_alarm now ''arming'' ''Sending alarm_arm_away command'' r;
                away = CallService ''alarm_arm_away'' ''alarm_control_panel'' alarm_panel;
                home = CallService ''alarm_arm_home'' ''alarm_control_panel'' alarm_panel
            in case arm_away out of
                 None \<Rightarrow>
                   (let (r2, es) = arm_completed now r1
                    in (r2, [GetState alarm_panel, away] @ es))
               | Some serviceError \<Rightarrow>
                   if includes_str serviceError ''500''
                   then
                     let r2 = (case alarmDetails out of
                                 Inl detailError \<Rightarrow> r1
                               | Inr details' \<Rightarrow>
                                   addStateHistory_alarm now ''service_error''
                                     (''HTTP 500 - Check alarm panel config. Current attrs: '' @
                                      attributes details') r1)
                     in case arm_home out of
                          None \<Rightarrow>
                            (let r3 = addStateHistory_alarm now ''fallback_arm''
                                        ''Used alarm_arm_home as fallback'' r2;
                                 (r4, es) = arm_completed now r3
                             in (r4,
                                 [GetState alarm_panel, away, GetState alarm_panel, home] @ es))
                        | Some fallbackError \<Rightarrow>
                            (let (r3, es) = arm_error now serviceError r2
                             in (r3,
                                 [GetState alarm_panel, away, GetState alarm_panel, home] @ es))
                   else
                     (let (r2, es) = arm_error now serviceError r1
                      in (r2, [GetState alarm_panel, away] @ es)))"

text \<open>\<^verbatim>\<open>Math.ceil(cooldownRemaining / 1000 / 60)\<close> on a positive whole number of milliseconds:
  the quotient is either a whole number, computed exactly, or at least 1/60000 away from
  one, so the floating-point result is the integer ceiling.\<close>

definition remainingMinutes :: "int \<Rightarrow> int" where
  "remainingMinutes cooldownRemaining = - ((- cooldownRemaining) div 60000)"

text \<open>\<^verbatim>\<open>now.getMinutes().toString().padStart(2, '0')\<close>.\<close>

definition padStart2 :: "string \<Rightarrow> string" where
  "padStart2 s = (if length s < 2 then replicate (2 - length s) CHR ''0'' @ s else s)"

text \<open>\<^verbatim>\<open>reasons.join(' and ')\<close>.\<close>

fun join_and :: "string list \<Rightarrow> string" where
  "join_and [] = []"
| "join_and [x] = x"
| "join_and (x # y # ys) = x @ '' and '' @ join_and (y # ys)"

text \<open>The \<^verbatim>\<open>else\<close> branch of the main arming logic: why the runner is not arming.\<close>

definition no_action :: "date \<Rightarrow> bool \<Rightarrow> string \<Rightarrow> alarm_runner \<Rightarrow> alarm_runner" where
  "no_action now inWin currentState r =
     (let reasons =
            (if \<not> inWin
             then [''outside time window (current: '' @ show_nat (getHours now) @ '':'' @
                   padStart2 (show_nat (getMinutes now)) @ '', need: 21:00-07:00)'']
             else []) @
            (if currentState \<noteq> ''disarmed''
             then [''alarm is '' @ currentState @ '' (need: disarmed)'']
             else [])
      in addStateHistory_alarm now ''no_action'' (''Not arming: '' @ join_and reasons) r)"

text \<open>What \<^verbatim>\<open>checkAndArm\<close> does once the panel state has been fetched. The arrow of the
  state-change texts is written \<open>->\<close>.\<close>

definition alarm_state_fetched ::
  "date \<Rightarrow> string \<Rightarrow> arm_outcomes \<Rightarrow> alarm_runner \<Rightarrow> alarm_runner \<times> effect list" where
  "alarm_state_fetched now currentState out r =
     (let inWin = isInArmingWindow (getHours now) (getMinutes now);
          r1 = r\<lparr>errorCount := 0\<rparr>;
          (r2, es2) =
            (if lastAlarmState r1 \<noteq> None \<and> lastAlarmState r1 \<noteq> Some currentState
             then (addStateHistory_alarm now ''state_change''
                     (the (lastAlarmState r1) @ '' -> '' @ currentState) r1,
                   [LogEvent ''triggered''
                      (''Alarm state changed: '' @ the (lastAlarmState r1) @ '' -> '' @
                       currentState @ '' (Window: '' @
                       (if inWin then ''Active'' else ''Inactive'') @ '')'')])
             else (r1, []));
          r3 = r2\<lparr>lastAlarmState := Some currentState\<rparr>;
          shouldAttemptArm = (inWin \<and> currentState = ''disarmed'');
          cooldownRemaining =
            (case lastArmAttempt r3 of
               None \<Rightarrow> 0
             | Some lastAttempt \<Rightarrow> armCooldown r3 - (getTime now - getTime lastAttempt))
      in if shouldAttemptArm \<and> lastArmAttempt r3 \<noteq> None \<and> cooldownRemaining > 0
         then (addStateHistory_alarm now ''cooldown''
                 (''Waiting '' @ show_int (remainingMinutes cooldownRemaining) @
                  ''m before next arm attempt'') r3,
               es2)
         else if shouldAttemptArm
         then
           (let (r4, es4) = armAlarmWithValidation now out r3
            in (r4\<lparr>lastArmAttempt := Some now\<rparr>, es2 @ es4 @ [UpdateTriggerCount]))
         else (no_action now inWin currentState r3, es2 @ [UpdateTriggerCount]))"

text \<open>\<^verbatim>\<open>checkAndArm\<close>. Its outer \<^verbatim>\<open>catch (error)\<close> handler, which counts an error and logs
  it on the first and every third, is entered only when a call of the persistence
  service rejects after the fetch; with those calls resolving it is never entered.\<close>

definition checkAndArm ::
  "date \<Rightarrow> ha_entity result \<Rightarrow> arm_outcomes \<Rightarrow> alarm_runner
     \<Rightarrow> alarm_runner \<times> effect list" where
  "checkAndArm now fetch out r =
     (if errorCount r \<ge> maxErrors r
      then
        (let (r1, es) = stop_alarm r
         in (r1,
             LogEvent ''error''
               (''Automation stopped due to '' @ show_nat (errorCount r) @
                '' consecutive errors'') # es))
      else
        case fetch of
          Inl msg \<Rightarrow>
            (let r1 = r\<lparr>errorCount := errorCount r + 1\<rparr>;
                 r2 = addStateHistory_alarm now ''fetch_error''
                        (''Failed to get alarm state: '' @ msg) r1
             in (r2,
                 [GetState alarm_panel,
                  LogEvent ''error'' (''Failed to get alarm state: '' @ msg)]))
        | Inr alarmStateResponse \<Rightarrow>
            (let (r1, es) = alarm_state_fetched now (state alarmStateResponse) out r
             in (r1, GetState alarm_panel # es)))"

text \<open>\<^verbatim>\<open>start\<close> awaits \<^verbatim>\<open>initializeState\<close> and then one \<^verbatim>\<open>checkAndArm\<close>; \<open>fetch0\<close> is the
  outcome of the first state fetch, \<open>fetch\<close> and \<open>out\<close> are those of the check.\<close>

definition start_alarm ::
  "date \<Rightarrow> ha_entity result \<Rightarrow> ha_entity result \<Rightarrow> arm_outcomes \<Rightarrow> alarm_runner
     \<Rightarrow> alarm_runner \<times> effect list" where
  "start_alarm now fetch0 fetch out r =
     (if isRunning r then (r, [])
      else
        let r1 = r\<lparr>isRunning := True, errorCount := 0\<rparr>;
            (i, r2) = setTimer 30000 True CheckTick r1;
            r3 = r2\<lparr>checkInterval := Some i\<rparr>;
            (r4, es4) = initializeState_alarm now fetch0 r3;
            (r5, es5) = checkAndArm now fetch out r4
        in (r5,
            es4 @ es5 @
            [LogEvent ''started''
               ''Alarm auto-arm automation started - checking every 30 seconds'']))"

definition fire_alarm ::
  "timer_id \<Rightarrow> date \<Rightarrow> ha_entity result \<Rightarrow> arm_outcomes \<Rightarrow> alarm_runner
     \<Rightarrow> alarm_runner \<times> effect list" where
  "fire_alarm i now fetch out r =
     (case find (\<lambda>t. tid t = i) (timers r) of
        None \<Rightarrow> (r, [])
      | Some t \<Rightarrow>
          (let r1 = (if recurring t then r else clearTimer i r)
           in case callback t of
                CheckTick \<Rightarrow> checkAndArm now fetch out r1
              | VerifyArm \<Rightarrow> verifyArmStatus now fetch r1))"

datatype alarm_event =
    Start_alarm date "ha_entity result" "ha_entity result" arm_outcomes
  | Stop_alarm
  | Fire_alarm timer_id date "ha_entity result" arm_outcomes

fun step_alarm :: "alarm_event \<Rightarrow> alarm_runner \<Rightarrow> alarm_runner \<times> effect list" where
  "step_alarm (Start_alarm now fetch0 fetch out) r = start_alarm now fetch0 fetch out r"
| "step_alarm Stop_alarm r = stop_alarm r"
| "step_alarm (Fire_alarm i now fetch out) r = fire_alarm i now fetch out r"

fun run_alarm :: "alarm_event list \<Rightarrow> alarm_runner \<Rightarrow> alarm_runner \<times> effect list" where
  "run_alarm [] r = (r, [])"
| "run_alarm (e # es) r =
     (let (r1, out1) = step_alarm e r;
          (r2, out2) = run_alarm es r1
      in (r2, out1 @ out2))"

section \<open>Edge-Triggered Runner: polls that overlap\<close>

text \<open>
  \<^verbatim>\<open>setInterval\<close> does not wait for the promise an \<^verbatim>\<open>async\<close> callback returns: it starts a new
  \<^verbatim>\<open>checkMotionState\<close> every 750 ms, whether or not an earlier one is still suspended at
  \<^verbatim>\<open>await getHAEntityState\<close>. The runner has no guard against this. \<open>fire_motion\<close> above is
  the poll that runs to its end before anything else happens; here the poll is split at
  that \<^verbatim>\<open>await\<close>.

  \<open>checkMotionState_settled\<close> is what a poll does once its fetch has settled: the lines
  after the \<^verbatim>\<open>await\<close>, with the \<^verbatim>\<open>catch (entityError)\<close> handler. It reads the error counter
  and the last motion state as they are then, and tests neither the stop threshold nor
  \<^verbatim>\<open>isRunning\<close> again.
\<close>

definition checkMotionState_settled ::
  "int \<Rightarrow> ha_entity result \<Rightarrow> string option \<Rightarrow> motion_runner
     \<Rightarrow> motion_runner \<times> effect list" where
  "checkMotionState_settled now fetch call r =
     (let motionEntity = the (motion_entity (settings r));
          lightEntity = the (light_entity (settings r));
          delay = delaySeconds (settings r)
      in case fetch of
           Inl msg \<Rightarrow> motion_state_error now msg r
         | Inr motionState' \<Rightarrow>
             (let r1 = r\<lparr>errorCount := 0,
                          consecutiveSuccesses := consecutiveSuccesses r + 1,
                          lastSuccessfulPoll := Some now\<rparr>
              in motion_state_fetched now motionEntity lightEntity delay
                   (state motionState') call r1))"

text \<open>A poll reaches its \<^verbatim>\<open>await\<close> when it is not stopped by the error threshold and both
  entities are configured.\<close>

definition reaches_fetch :: "motion_runner \<Rightarrow> bool" where
  "reaches_fetch r \<longleftrightarrow>
     errorCount r < maxErrors r \<and> \<not> falsy (motion_entity (settings r)) \<and>
     \<not> falsy (light_entity (settings r))"

text \<open>The events of a run with overlapping polls: an event of the runs above, taken
  whole; the polling timer fires and the poll runs up to its fetch; the fetch of one
  outstanding poll settles and that poll runs to its end. Between events the runner is
  its record together with the number of polls whose fetch is outstanding.\<close>

datatype motion_async_event =
    Whole motion_event
  | Poll_begins timer_id
  | Poll_settles int "ha_entity result" "string option"

fun step_async ::
  "motion_async_event \<Rightarrow> motion_runner \<times> nat \<Rightarrow> (motion_runner \<times> nat) \<times> effect list" where
  "step_async (Whole e) (r, n) = (let (r1, es) = step_motion e r in ((r1, n), es))"
| "step_async (Poll_begins i) (r, n) =
     (case find (\<lambda>t. tid t = i) (timers r) of
        None \<Rightarrow> ((r, n), [])
      | Some t \<Rightarrow>
          if callback t = PollTick \<and> recurring t \<and> reaches_fetch r
          then ((r, Suc n), [GetState (the (motion_entity (settings r)))])
          else ((r, n), []))"
| "step_async (Poll_settles now fetch call) (r, n) =
     (if n = 0 then ((r, n), [])
      else let (r1, es) = checkMotionState_settled now fetch call r in ((r1, n - 1), es))"

fun run_async ::
  "motion_async_event list \<Rightarrow> motion_runner \<times> nat \<Rightarrow> (motion_runner \<times> nat) \<times> effect list" where
  "run_async [] s = (s, [])"
| "run_async (e # es) s =
     (let (s1, out1) = step_async e s;
          (s2, out2) = run_async es s1
      in (s2, out1 @ out2))"

section \<open>Invariants of the reachable states\<close>

text \<open>What holds of a runner after any sequence of events from its construction: the
  stop threshold is 10 and the error counter never passes it, and a polling timer is
  pending only while the runner is running and is then the recurring one whose handle the
  runner holds; every pending handle and the handles the runner holds were issued before
  the next fresh one, and
  the countdown handle differs from the polling handle. For the alarm runner, the
  cooldown is five minutes and no verification timer has the polling handle.\<close>

definition inv_motion :: "motion_runner \<Rightarrow> bool" where
  "inv_motion r \<longleftrightarrow>
     maxErrors r = 10 \<and> errorCount r \<le> 10 \<and>
     (\<forall>t \<in> set (timers r). callback t = PollTick \<longrightarrow>
        recurring t \<and> isRunning r \<and> pollInterval r = Some (tid t)) \<and>
     (\<forall>t \<in> set (timers r). tid t < nextTimerId r) \<and>
     (\<forall>x. pollInterval r = Some x \<longrightarrow> x < nextTimerId r) \<and>
     (\<forall>x. timeoutId r = Some x \<longrightarrow> x < nextTimerId r \<and> pollInterval r \<noteq> Some x)"

definition inv_alarm :: "alarm_runner \<Rightarrow> bool" where
  "inv_alarm r \<longleftrightarrow>
     maxErrors r = 10 \<and> errorCount r \<le> 10 \<and> armCooldown r = 300000 \<and>
     (\<forall>t \<in> set (timers r). callback t = CheckTick \<longrightarrow>
        recurring t \<and> isRunning r \<and> checkInterval r = Some (tid t)) \<and>
     (\<forall>t \<in> set (timers r). tid t < nextTimerId r) \<and>
     (\<forall>x. checkInterval r = Some x \<longrightarrow> x < nextTimerId r) \<and>
     (\<forall>t \<in> set (timers r). callback t = VerifyArm \<longrightarrow> checkInterval r \<noteq> Some (tid t))"

section \<open>The arm attempts of a run\<close>

text \<open>The successive values \<open>lastArmAttempt\<close> takes along a run of the alarm runner: one
  entry for each event that changes it.\<close>

fun arm_attempts :: "alarm_event list \<Rightarrow> alarm_runner \<Rightarrow> date list" where
  "arm_attempts [] r = []"
| "arm_attempts (e # es) r =
     (let r1 = fst (step_alarm e r)
      in (case lastArmAttempt r1 of
            None \<Rightarrow> []
          | Some t \<Rightarrow> if lastArmAttempt r1 \<noteq> lastArmAttempt r then [t] else []) @
         arm_attempts es r1)"

section \<open>Concrete runners used to instantiate the theorems\<close>

text \<open>The settings of the specification's scenario, an entity object with a given state,
  and a wall-clock reading.\<close>

definition scenario_settings :: motion_settings where
  "scenario_settings =
     \<lparr>motion_entity = Some ''m1'', light_entity = Some ''l1'', delay_seconds = Some 15\<rparr>"

definition entity :: "string \<Rightarrow> ha_entity" where
  "entity s = \<lparr>state = s, attributes = ''{}''\<rparr>"

definition clock :: "int \<Rightarrow> nat \<Rightarrow> nat \<Rightarrow> date" where
  "clock t h m = \<lparr>getTime = t, getHours = h, getMinutes = m, toLocaleTimeString = []\<rparr>"

text \<open>A motion runner started while the sensor reads \<open>s\<close>, and one whose initial fetch
  failed, so that \<open>lastMotionState\<close> is still \<open>null\<close>.\<close>

definition started_motion :: "string \<Rightarrow> motion_runner" where
  "started_motion s = fst (start_motion 0 (Inr (entity s)) (new_motion_runner scenario_settings))"

definition started_motion_blind :: motion_runner where
  "started_motion_blind =
     fst (start_motion 0 (Inl ''timeout'') (new_motion_runner scenario_settings))"

text \<open>A motion runner and an alarm runner started and then polled \<open>n\<close> times with a
  rejected state fetch; the outcomes of an arm sequence that goes through.\<close>

definition arm_ok :: arm_outcomes where
  "arm_ok =
     \<lparr>preArm = Inr (entity ''disarmed''), arm_away = None,
      alarmDetails = Inr (entity ''disarmed''), arm_home = None\<rparr>"

definition motion_strikes :: "nat \<Rightarrow> motion_event list" where
  "motion_strikes n =
     Start_motion 0 (Inr (entity ''off'')) #
     replicate n (Fire_motion 1 750 (Inl ''timeout'') None)"

definition alarm_strikes :: "nat \<Rightarrow> alarm_event list" where
  "alarm_strikes n =
     Start_alarm (clock 0 12 0) (Inr (entity ''armed_away'')) (Inr (entity ''armed_away''))
       arm_ok #
     replicate n (Fire_alarm 1 (clock 30000 12 0) (Inl ''timeout'') arm_ok)"

definition struck_motion :: "nat \<Rightarrow> motion_runner" where
  "struck_motion n = fst (run_motion (motion_strikes n) (new_motion_runner scenario_settings))"

definition struck_alarm :: "nat \<Rightarrow> alarm_runner" where
  "struck_alarm n = fst (run_alarm (alarm_strikes n) new_alarm_runner)"

text \<open>A motion runner that saw motion stop and has its countdown pending.\<close>

definition counting_events :: "motion_event list" where
  "counting_events =
     [Start_motion 0 (Inr (entity ''on'')), Fire_motion 1 750 (Inr (entity ''off'')) None]"

definition counting_motion :: motion_runner where
  "counting_motion = fst (run_motion counting_events (new_motion_runner scenario_settings))"

text \<open>An alarm runner started at 22:00 while the panel is disarmed, so that it arms at once
  and leaves its verification timer pending, and then stopped.\<close>

definition armed_then_stopped :: alarm_runner where
  "armed_then_stopped =
     fst (run_alarm
            [Start_alarm (clock 0 22 0) (Inr (entity ''disarmed'')) (Inr (entity ''disarmed''))
               arm_ok,
             Stop_alarm]
            new_alarm_runner)"

text \<open>An alarm runner started at 22:00 while the panel is disarmed: it has made one arm
  attempt, at time 0.\<close>

definition armed_events :: "alarm_event list" where
  "armed_events =
     [Start_alarm (clock 0 22 0) (Inr (entity ''disarmed'')) (Inr (entity ''disarmed'')) arm_ok]"

definition armed_alarm :: alarm_runner where
  "armed_alarm = fst (run_alarm armed_events new_alarm_runner)"

text \<open>A run in which the sensor passes through a state other than \<open>on\<close> and \<open>off\<close> between
  two on-to-off transitions, and the runner is then stopped.\<close>

definition twice_counting_events :: "motion_event list" where
  "twice_counting_events =
     [Start_motion 0 (Inr (entity ''on'')),
      Fire_motion 1 750 (Inr (entity ''off'')) None,
      Fire_motion 1 1500 (Inr (entity ''unavailable'')) None,
      Fire_motion 1 2250 (Inr (entity ''on'')) None,
      Fire_motion 1 3000 (Inr (entity ''off'')) None,
      Stop_motion]"


text \<open>The run of \<open>twice_counting_events\<close> up to its second countdown, after which the first
  countdown fires while the sensor reads \<open>off\<close>: the second countdown is pending and
  \<open>timeoutId\<close> is \<open>null\<close>.\<close>

definition lost_countdown_events :: "motion_event list" where
  "lost_countdown_events =
     [Start_motion 0 (Inr (entity ''on'')),
      Fire_motion 1 750 (Inr (entity ''off'')) None,
      Fire_motion 1 1500 (Inr (entity ''unavailable'')) None,
      Fire_motion 1 2250 (Inr (entity ''on'')) None,
      Fire_motion 1 3000 (Inr (entity ''off'')) None,
      Fire_motion 2 15750 (Inr (entity ''off'')) None]"

definition lost_countdown :: motion_runner where
  "lost_countdown = fst (run_motion lost_countdown_events (new_motion_runner scenario_settings))"

section \<open>Theorems\<close>

subsection \<open>The history ring\<close>

lemma length_slice_last: "length (slice_last n xs) \<le> n"
  by (simp add: slice_last_def)

lemma slice_last_short: "length xs \<le> n \<Longrightarrow> slice_last n xs = xs"
  by (simp add: slice_last_def)

lemma slice_last_append: "slice_last n (slice_last n xs @ ys) = slice_last n (xs @ ys)"
  by (cases "n \<le> length xs") (simp_all add: slice_last_def add.commute)

lemma slice_last_slice_last: "m \<le> n \<Longrightarrow> slice_last m (slice_last n xs) = slice_last m xs"
  by (cases "n \<le> length xs") (simp_all add: slice_last_def)

lemma addStateHistory_motion_eq:
  "addStateHistory_motion now ms act ad r =
     r\<lparr>stateHistory := slice_last 50 (stateHistory r @
        [\<lparr>timestamp = now, action = act, motionState = ms,
          errorCount_at = errorCount r, consecutiveSuccesses_at = consecutiveSuccesses r,
          additionalData = ad\<rparr>])\<rparr>"
  by (simp add: addStateHistory_motion_def Let_def slice_last_def)

lemma addStateHistory_alarm_eq:
  "addStateHistory_alarm now act det r =
     r\<lparr>stateHistory := slice_last 100 (stateHistory r @
        [\<lparr>timestamp = getTime now, action = act, details = det,
          alarmState = lastAlarmState r,
          inWindow = isInArmingWindow (getHours now) (getMinutes now)\<rparr>])\<rparr>"
  by (simp add: addStateHistory_alarm_def Let_def slice_last_def)

subsection \<open>Edge-Triggered Runner: one poll\<close>

lemma fire_motion_poll:
  "find (\<lambda>t. tid t = i) (timers r) = Some (Timer i d True PollTick) \<Longrightarrow>
     fire_motion i now fetch call r = checkMotionState now fetch call r"
  by (simp add: fire_motion_def)

lemma first_poll:
  assumes "errorCount r < maxErrors r"
      and "motion_entity (settings r) = Some m" "m \<noteq> []"
      and "light_entity (settings r) = Some l" "l \<noteq> []"
      and "lastMotionState r = None"
  shows "checkMotionState now (Inr e) call r =
     (addStateHistory_motion now (state e) ''initialized'' Null
        (r\<lparr>errorCount := 0, consecutiveSuccesses := consecutiveSuccesses r + 1,
           lastSuccessfulPoll := Some now, lastMotionState := Some (state e)\<rparr>),
      [GetState m])"
  using assms
  by (simp add: checkMotionState_def motion_state_fetched_def falsy_def Let_def)

lemma same_poll:
  assumes "errorCount r < maxErrors r"
      and "motion_entity (settings r) = Some m" "m \<noteq> []"
      and "light_entity (settings r) = Some l" "l \<noteq> []"
      and "lastMotionState r = Some (state e)"
  shows "checkMotionState now (Inr e) call r =
     (r\<lparr>errorCount := 0, consecutiveSuccesses := consecutiveSuccesses r + 1,
        lastSuccessfulPoll := Some now\<rparr>,
      [GetState m])"
  using assms
  by (simp add: checkMotionState_def motion_state_fetched_def falsy_def Let_def)

lemma repeated_polls:
  assumes "motion_entity (settings r) = Some m" "m \<noteq> []"
      and "light_entity (settings r) = Some l" "l \<noteq> []"
      and "errorCount r < maxErrors r"
      and "find (\<lambda>t. tid t = i) (timers r) = Some (Timer i d True PollTick)"
      and "lastMotionState r = Some s"
      and "\<forall>p \<in> set polls. state (fst (snd p)) = s"
  shows "case run_motion (map (\<lambda>(now, e, call). Fire_motion i now (Inr e) call) polls) r of
           (r', es) \<Rightarrow>
             stateHistory r' = stateHistory r \<and> lastMotionState r' = Some s \<and>
             timers r' = timers r \<and> timeoutId r' = timeoutId r \<and>
             (\<forall>x \<in> set es. x = GetState m)"
  using assms
proof (induction polls arbitrary: r)
  case Nil
  then show ?case by simp
next
  case (Cons p ps)
  obtain now e call where p: "p = (now, e, call)" by (cases p) auto
  let ?r1 = "r\<lparr>errorCount := 0, consecutiveSuccesses := consecutiveSuccesses r + 1,
                lastSuccessfulPoll := Some now\<rparr>"
  from Cons.prems p have st: "state e = s" by simp
  have step: "fire_motion i now (Inr e) call r = (?r1, [GetState m])"
    using Cons.prems st by (simp add: fire_motion_poll same_poll)
  have "case run_motion (map (\<lambda>(now, e, call). Fire_motion i now (Inr e) call) ps) ?r1 of
           (r', es) \<Rightarrow>
             stateHistory r' = stateHistory ?r1 \<and> lastMotionState r' = Some s \<and>
             timers r' = timers ?r1 \<and> timeoutId r' = timeoutId ?r1 \<and>
             (\<forall>x \<in> set es. x = GetState m)"
    using Cons.prems by (intro Cons.IH) auto
  then show ?case
    using step p by (auto split: prod.splits)
qed

text \<open>
  C3. The time predicate of the Scheduled-Window Runner, on the minutes since midnight
  \<open>m = hour * 60 + minute\<close> of a wall-clock reading (hour below 24, minute below 60), is
  true exactly when \<open>m\<close> lies in [21*60, 24*60) or in [0, 7*60). It is true at 23:59, 00:00
  and 06:59 and false at 07:00 and 20:59.
\<close>

theorem isInArmingWindow_iff:
  "hour < 24 \<Longrightarrow> minute < 60 \<Longrightarrow>
     (isInArmingWindow hour minute \<longleftrightarrow>
        (21 * 60 \<le> hour * 60 + minute \<and> hour * 60 + minute < 24 * 60) \<or>
        (0 \<le> hour * 60 + minute \<and> hour * 60 + minute < 7 * 60)) \<and>
     isInArmingWindow 23 59 \<and> isInArmingWindow 0 0 \<and> isInArmingWindow 6 59 \<and>
     \<not> isInArmingWindow 7 0 \<and> \<not> isInArmingWindow 20 59"
  by (auto simp: isInArmingWindow_def Let_def)

theorem isInArmingWindow_iff_witness:
  "(22::nat) < 24 \<and> (30::nat) < 60 \<and> isInArmingWindow 22 30 \<and>
   (21 * 60 \<le> 22 * 60 + (30::nat) \<and> 22 * 60 + (30::nat) < 24 * 60)"
  using isInArmingWindow_iff [of 22 30] by simp

text \<open>
  C1. In the Edge-Triggered Runner actions fire only on observed transitions. Take a
  runner with both entities configured, fewer errors than the stop threshold, and its
  poll timer \<open>i\<close> pending. (a) Over every sequence of polls that each fetch the state
  \<open>lastMotionState\<close> already holds, the only collaborator call is the state fetch itself
  (no service call, no event, no trigger-count update), the history is not written, and
  \<open>lastMotionState\<close>, the timers and \<open>timeoutId\<close> stay as they are. (b) When
  \<open>lastMotionState\<close> is \<open>null\<close>, a successful poll makes no call but the fetch: it does the
  bookkeeping of every successful poll, sets \<open>lastMotionState\<close> to the fetched state and
  notes this as an \<open>initialized\<close> history entry.
\<close>

theorem edge_only_firing:
  assumes "motion_entity (settings r) = Some m" "m \<noteq> []"
      and "light_entity (settings r) = Some l" "l \<noteq> []"
      and "errorCount r < maxErrors r"
      and "find (\<lambda>t. tid t = i) (timers r) = Some (Timer i d True PollTick)"
  shows "(lastMotionState r = Some s \<and> (\<forall>p \<in> set polls. state (fst (snd p)) = s) \<longrightarrow>
           (case run_motion (map (\<lambda>(now, e, call). Fire_motion i now (Inr e) call) polls) r of
              (r', es) \<Rightarrow>
                stateHistory r' = stateHistory r \<and> lastMotionState r' = Some s \<and>
                timers r' = timers r \<and> timeoutId r' = timeoutId r \<and>
                (\<forall>x \<in> set es. x = GetState m))) \<and>
         (lastMotionState r = None \<longrightarrow>
           fire_motion i now (Inr e) call r =
             (addStateHistory_motion now (state e) ''initialized'' Null
                (r\<lparr>errorCount := 0, consecutiveSuccesses := consecutiveSuccesses r + 1,
                   lastSuccessfulPoll := Some now, lastMotionState := Some (state e)\<rparr>),
              [GetState m]))"
proof (intro conjI impI)
  assume "lastMotionState r = Some s \<and> (\<forall>p \<in> set polls. state (fst (snd p)) = s)"
  then show "case run_motion (map (\<lambda>(now, e, call). Fire_motion i now (Inr e) call) polls) r of
              (r', es) \<Rightarrow>
                stateHistory r' = stateHistory r \<and> lastMotionState r' = Some s \<and>
                timers r' = timers r \<and> timeoutId r' = timeoutId r \<and>
                (\<forall>x \<in> set es. x = GetState m)"
    using repeated_polls [OF assms, of s polls] by simp
next
  assume "lastMotionState r = None"
  then show "fire_motion i now (Inr e) call r =
             (addStateHistory_motion now (state e) ''initialized'' Null
                (r\<lparr>errorCount := 0, consecutiveSuccesses := consecutiveSuccesses r + 1,
                   lastSuccessfulPoll := Some now, lastMotionState := Some (state e)\<rparr>),
              [GetState m])"
    using assms by (simp add: fire_motion_poll first_poll)
qed

lemma started_motion_fields:
  "settings (started_motion s) = scenario_settings"
  "errorCount (started_motion s) = 0"
  "maxErrors (started_motion s) = 10"
  "timers (started_motion s) = [Timer 1 750 True PollTick]"
  "lastMotionState (started_motion s) = Some s"
  "isRunning (started_motion s)"
  "pollInterval (started_motion s) = Some 1"
  "timeoutId (started_motion s) = None"
  by (simp_all add: started_motion_def start_motion_def new_motion_runner_def
      scenario_settings_def setTimer_def initializeState_motion_def falsy_def entity_def
      addStateHistory_motion_eq Let_def)

lemma started_motion_blind_fields:
  "settings started_motion_blind = scenario_settings"
  "errorCount started_motion_blind = 0"
  "maxErrors started_motion_blind = 10"
  "timers started_motion_blind = [Timer 1 750 True PollTick]"
  "lastMotionState started_motion_blind = None"
  "isRunning started_motion_blind"
  "pollInterval started_motion_blind = Some 1"
  "timeoutId started_motion_blind = None"
  by (simp_all add: started_motion_blind_def start_motion_def new_motion_runner_def
      scenario_settings_def setTimer_def initializeState_motion_def
      initializeState_failed_motion_def falsy_def
      addStateHistory_motion_eq Let_def)

theorem edge_only_firing_witness:
  "(case run_motion [Fire_motion 1 750 (Inr (entity ''off'')) None,
                     Fire_motion 1 1500 (Inr (entity ''off'')) None] (started_motion ''off'') of
      (r', es) \<Rightarrow>
        stateHistory r' = stateHistory (started_motion ''off'') \<and>
        lastMotionState r' = Some ''off'' \<and>
        timers r' = timers (started_motion ''off'') \<and>
        timeoutId r' = timeoutId (started_motion ''off'') \<and>
        (\<forall>x \<in> set es. x = GetState ''m1'')) \<and>
   fire_motion 1 750 (Inr (entity ''on'')) None started_motion_blind =
     (addStateHistory_motion 750 ''on'' ''initialized'' Null
        (started_motion_blind\<lparr>errorCount := 0,
           consecutiveSuccesses := consecutiveSuccesses started_motion_blind + 1,
           lastSuccessfulPoll := Some 750, lastMotionState := Some ''on''\<rparr>),
      [GetState ''m1''])"
proof -
  have a: "motion_entity (settings (started_motion ''off'')) = Some ''m1''"
          "light_entity (settings (started_motion ''off'')) = Some ''l1''"
          "errorCount (started_motion ''off'') < maxErrors (started_motion ''off'')"
          "find (\<lambda>t. tid t = 1) (timers (started_motion ''off'')) = Some (Timer 1 750 True PollTick)"
    by (simp_all add: started_motion_fields scenario_settings_def)
  have b: "motion_entity (settings started_motion_blind) = Some ''m1''"
          "light_entity (settings started_motion_blind) = Some ''l1''"
          "errorCount started_motion_blind < maxErrors started_motion_blind"
          "find (\<lambda>t. tid t = 1) (timers started_motion_blind) = Some (Timer 1 750 True PollTick)"
    by (simp_all add: started_motion_blind_fields scenario_settings_def)
  have ne: "''m1'' \<noteq> []" "''l1'' \<noteq> []" by simp_all
  show ?thesis
    using edge_only_firing [OF a(1) ne(1) a(2) ne(2) a(3) a(4), of "''off''"
            "[(750, entity ''off'', None), (1500, entity ''off'', None)]"]
          edge_only_firing [OF b(1) ne(1) b(2) ne(2) b(3) b(4), of _ _ 750 "entity ''on''" None]
    by (simp add: started_motion_fields started_motion_blind_fields entity_def)
qed

subsection \<open>The history ring stays within its capacity\<close>

lemma hist_stop_motion: "stateHistory (fst (stop_motion r)) = stateHistory r"
  by (simp add: stop_motion_def clearTimer_def Let_def split: option.splits)

lemma hist_checkMotionState:
  "length (stateHistory r) \<le> 50 \<Longrightarrow>
     length (stateHistory (fst (checkMotionState now fetch call r))) \<le> 50"
  by (simp add: checkMotionState_def motion_state_fetched_def motion_detected_def
      motion_stopped_def motion_state_error_def general_error_motion_def
      hist_stop_motion addStateHistory_motion_eq length_slice_last
      clearTimer_def setTimer_def Let_def split_def
      split: option.splits sum.splits)

lemma hist_countdown_fired:
  "length (stateHistory r) \<le> 50 \<Longrightarrow>
     length (stateHistory (fst (countdown_fired now fetch call m l d r))) \<le> 50"
  by (simp add: countdown_fired_def addStateHistory_motion_eq length_slice_last
      Let_def split_def split: option.splits sum.splits)

lemma hist_fire_motion:
  "length (stateHistory r) \<le> 50 \<Longrightarrow>
     length (stateHistory (fst (fire_motion i now fetch call r))) \<le> 50"
  by (simp add: fire_motion_def hist_checkMotionState hist_countdown_fired clearTimer_def
      Let_def split: option.splits motion_callback.splits)

lemma hist_start_motion:
  "length (stateHistory r) \<le> 50 \<Longrightarrow>
     length (stateHistory (fst (start_motion now fetch r))) \<le> 50"
  by (simp add: start_motion_def initializeState_motion_def initializeState_failed_motion_def
      addStateHistory_motion_eq length_slice_last setTimer_def
      Let_def split_def split: option.splits sum.splits)

lemma hist_step_motion:
  "length (stateHistory r) \<le> 50 \<Longrightarrow> length (stateHistory (fst (step_motion e r))) \<le> 50"
  by (cases e) (simp_all add: hist_start_motion hist_stop_motion hist_fire_motion)

lemma run_motion_Cons:
  "fst (run_motion (e # evs) r) = fst (run_motion evs (fst (step_motion e r)))"
  "snd (run_motion (e # evs) r) =
     snd (step_motion e r) @ snd (run_motion evs (fst (step_motion e r)))"
  by (simp_all add: split_def Let_def)

lemma run_alarm_Cons:
  "fst (run_alarm (e # evs) r) = fst (run_alarm evs (fst (step_alarm e r)))"
  "snd (run_alarm (e # evs) r) =
     snd (step_alarm e r) @ snd (run_alarm evs (fst (step_alarm e r)))"
  by (simp_all add: split_def Let_def)

lemma hist_run_motion:
  "length (stateHistory r) \<le> 50 \<Longrightarrow> length (stateHistory (fst (run_motion evs r))) \<le> 50"
proof (induction evs arbitrary: r)
  case Nil
  then show ?case by simp
next
  case (Cons e evs)
  have "length (stateHistory (fst (run_motion evs (fst (step_motion e r))))) \<le> 50"
    using Cons.prems by (intro Cons.IH hist_step_motion)
  then show ?case by (simp only: run_motion_Cons)
qed

lemma hist_stop_alarm: "stateHistory (fst (stop_alarm r)) = stateHistory r"
  by (simp add: stop_alarm_def clearTimer_def Let_def split: option.splits)

lemma hist_armAlarmWithValidation:
  "length (stateHistory r) \<le> 100 \<Longrightarrow>
     length (stateHistory (fst (armAlarmWithValidation now out r))) \<le> 100"
  by (simp add: armAlarmWithValidation_def arm_error_def arm_completed_def
      addStateHistory_alarm_eq length_slice_last setTimer_def
      Let_def split_def split: option.splits sum.splits)

lemma hist_alarm_state_fetched:
  "length (stateHistory r) \<le> 100 \<Longrightarrow>
     length (stateHistory (fst (alarm_state_fetched now cur out r))) \<le> 100"
  by (simp add: alarm_state_fetched_def no_action_def hist_armAlarmWithValidation
      addStateHistory_alarm_eq length_slice_last Let_def split_def)

lemma hist_checkAndArm:
  "length (stateHistory r) \<le> 100 \<Longrightarrow>
     length (stateHistory (fst (checkAndArm now fetch out r))) \<le> 100"
  by (simp add: checkAndArm_def hist_stop_alarm hist_alarm_state_fetched
      addStateHistory_alarm_eq length_slice_last Let_def split_def split: sum.splits)

lemma hist_verifyArmStatus:
  "length (stateHistory r) \<le> 100 \<Longrightarrow>
     length (stateHistory (fst (verifyArmStatus now fetch r))) \<le> 100"
  by (simp add: verifyArmStatus_def addStateHistory_alarm_eq length_slice_last Let_def
      split: sum.splits)

lemma hist_fire_alarm:
  "length (stateHistory r) \<le> 100 \<Longrightarrow>
     length (stateHistory (fst (fire_alarm i now fetch out r))) \<le> 100"
  by (simp add: fire_alarm_def hist_checkAndArm hist_verifyArmStatus clearTimer_def
      Let_def split: option.splits alarm_callback.splits)

lemma hist_initializeState_alarm:
  "length (stateHistory r) \<le> 100 \<Longrightarrow>
     length (stateHistory (fst (initializeState_alarm now fetch r))) \<le> 100"
  by (simp add: initializeState_alarm_def addStateHistory_alarm_eq length_slice_last Let_def
      split: sum.splits)

lemma hist_start_alarm:
  "length (stateHistory r) \<le> 100 \<Longrightarrow>
     length (stateHistory (fst (start_alarm now fetch0 fetch out r))) \<le> 100"
  by (simp add: start_alarm_def hist_initializeState_alarm hist_checkAndArm setTimer_def
      Let_def split_def)

lemma hist_step_alarm:
  "length (stateHistory r) \<le> 100 \<Longrightarrow> length (stateHistory (fst (step_alarm e r))) \<le> 100"
  by (cases e) (simp_all add: hist_start_alarm hist_stop_alarm hist_fire_alarm)

lemma hist_run_alarm:
  "length (stateHistory r) \<le> 100 \<Longrightarrow> length (stateHistory (fst (run_alarm evs r))) \<le> 100"
proof (induction evs arbitrary: r)
  case Nil
  then show ?case by simp
next
  case (Cons e evs)
  have "length (stateHistory (fst (run_alarm evs (fst (step_alarm e r))))) \<le> 100"
    using Cons.prems by (intro Cons.IH hist_step_alarm)
  then show ?case by (simp only: run_alarm_Cons)
qed

text \<open>
  C7. The state-history ring never exceeds its capacity: after every sequence of
  operations on a freshly constructed runner (calls of start and stop and firings of its
  timers, with any outcomes of the external calls) the history of the Edge-Triggered
  Runner holds at most 50 entries and that of the Scheduled-Window Runner at most 100.
  An append keeps the newest entries: the history becomes the old history followed by
  the new entry, with as many entries dropped from the front as exceed the capacity.
\<close>

theorem history_ring_capacity:
  "length (stateHistory (fst (run_motion evs (new_motion_runner st)))) \<le> 50 \<and>
   length (stateHistory (fst (run_alarm evs' new_alarm_runner))) \<le> 100 \<and>
   stateHistory (addStateHistory_motion now ms act ad r) =
     drop (length (stateHistory r) + 1 - 50)
       (stateHistory r @
        [\<lparr>timestamp = now, action = act, motionState = ms,
          errorCount_at = errorCount r, consecutiveSuccesses_at = consecutiveSuccesses r,
          additionalData = ad\<rparr>]) \<and>
   stateHistory (addStateHistory_alarm now' act' det r') =
     drop (length (stateHistory r') + 1 - 100)
       (stateHistory r' @
        [\<lparr>timestamp = getTime now', action = act', details = det,
          alarmState = lastAlarmState r',
          inWindow = isInArmingWindow (getHours now') (getMinutes now')\<rparr>])"
proof (intro conjI)
  show "length (stateHistory (fst (run_motion evs (new_motion_runner st)))) \<le> 50"
    by (rule hist_run_motion) (simp add: new_motion_runner_def)
  show "length (stateHistory (fst (run_alarm evs' new_alarm_runner))) \<le> 100"
    by (rule hist_run_alarm) (simp add: new_alarm_runner_def)
qed (simp_all add: addStateHistory_motion_eq addStateHistory_alarm_eq slice_last_def)

subsection \<open>Reachable states\<close>

lemma inv_motion_new: "inv_motion (new_motion_runner st)"
  by (simp add: inv_motion_def new_motion_runner_def)

lemma inv_motion_stop: "inv_motion r \<Longrightarrow> inv_motion (fst (stop_motion r))"
  by (auto simp: inv_motion_def stop_motion_def clearTimer_def Let_def split: option.splits)

lemma inv_motion_addStateHistory:
  "inv_motion (addStateHistory_motion now ms act ad r) = inv_motion r"
  by (simp add: inv_motion_def addStateHistory_motion_eq)

lemma inv_motion_general_error:
  "inv_motion r \<Longrightarrow> errorCount r < maxErrors r \<Longrightarrow>
     inv_motion (fst (general_error_motion now msg r))"
  by (auto simp: inv_motion_def general_error_motion_def addStateHistory_motion_eq Let_def)

lemma inv_motion_state_error:
  "inv_motion r \<Longrightarrow> errorCount r < maxErrors r \<Longrightarrow>
     inv_motion (fst (motion_state_error now msg r))"
  by (auto simp: inv_motion_def motion_state_error_def addStateHistory_motion_eq Let_def)

lemma inv_motion_detected:
  "inv_motion r \<Longrightarrow> inv_motion (fst (motion_detected now l cur call r))"
  by (auto simp: inv_motion_def motion_detected_def addStateHistory_motion_eq clearTimer_def
      Let_def split_def split: option.splits)

lemma inv_motion_stopped:
  "inv_motion r \<Longrightarrow> inv_motion (fst (motion_stopped now m l d cur r))"
  by (auto simp: inv_motion_def motion_stopped_def addStateHistory_motion_eq setTimer_def
      Let_def split_def)

lemma inv_motion_lastMotionState:
  "inv_motion (r\<lparr>lastMotionState := x\<rparr>) = inv_motion r"
  by (simp add: inv_motion_def)

lemma inv_motion_fetched:
  "inv_motion r \<Longrightarrow> inv_motion (fst (motion_state_fetched now m l d cur call r))"
  by (simp add: motion_state_fetched_def inv_motion_addStateHistory inv_motion_lastMotionState
      inv_motion_detected inv_motion_stopped Let_def split_def)

lemma inv_motion_success:
  "inv_motion r \<Longrightarrow>
     inv_motion (r\<lparr>errorCount := 0, consecutiveSuccesses := c, lastSuccessfulPoll := p\<rparr>)"
  by (simp add: inv_motion_def)

lemma inv_motion_check:
  assumes "inv_motion r"
  shows "inv_motion (fst (checkMotionState now fetch call r))"
proof (cases "maxErrors r \<le> errorCount r")
  case True
  then show ?thesis
    using assms by (simp add: checkMotionState_def split_def Let_def inv_motion_stop)
next
  case False
  then show ?thesis
    using assms
    by (cases fetch)
      (simp_all add: checkMotionState_def split_def Let_def inv_motion_general_error
        inv_motion_state_error inv_motion_fetched inv_motion_success)
qed

lemma inv_motion_countdown:
  "inv_motion r \<Longrightarrow> inv_motion (fst (countdown_fired now fetch call m l d r))"
  by (auto simp: inv_motion_def countdown_fired_def addStateHistory_motion_eq
      Let_def split_def split: option.splits sum.splits)

lemma inv_motion_clearTimer: "inv_motion r \<Longrightarrow> inv_motion (clearTimer i r)"
  by (auto simp: inv_motion_def clearTimer_def)

lemma inv_motion_fire: "inv_motion r \<Longrightarrow> inv_motion (fst (fire_motion i now fetch call r))"
  by (simp add: fire_motion_def inv_motion_check inv_motion_countdown inv_motion_clearTimer
      Let_def split: option.splits motion_callback.splits)

lemma inv_motion_start: "inv_motion r \<Longrightarrow> inv_motion (fst (start_motion now fetch r))"
  by (auto simp: inv_motion_def start_motion_def initializeState_motion_def
      initializeState_failed_motion_def addStateHistory_motion_eq setTimer_def
      Let_def split_def split: option.splits sum.splits)

lemma inv_motion_step: "inv_motion r \<Longrightarrow> inv_motion (fst (step_motion e r))"
  by (cases e) (simp_all add: inv_motion_start inv_motion_stop inv_motion_fire)

lemma inv_motion_run: "inv_motion r \<Longrightarrow> inv_motion (fst (run_motion evs r))"
proof (induction evs arbitrary: r)
  case Nil
  then show ?case by simp
next
  case (Cons e evs)
  have "inv_motion (fst (run_motion evs (fst (step_motion e r))))"
    using Cons.prems by (intro Cons.IH inv_motion_step)
  then show ?case by (simp only: run_motion_Cons)
qed

lemma inv_alarm_new: "inv_alarm new_alarm_runner"
  by (simp add: inv_alarm_def new_alarm_runner_def)

lemma inv_alarm_stop: "inv_alarm r \<Longrightarrow> inv_alarm (fst (stop_alarm r))"
  by (auto simp: inv_alarm_def stop_alarm_def clearTimer_def Let_def split: option.splits)

lemma inv_alarm_arm: "inv_alarm r \<Longrightarrow> inv_alarm (fst (armAlarmWithValidation now out r))"
  by (auto simp: inv_alarm_def armAlarmWithValidation_def arm_error_def arm_completed_def
      addStateHistory_alarm_eq setTimer_def Let_def split_def
      split: option.splits sum.splits)

lemma inv_alarm_addStateHistory:
  "inv_alarm (addStateHistory_alarm now act det r) = inv_alarm r"
  by (simp add: inv_alarm_def addStateHistory_alarm_eq)

lemma inv_alarm_updates:
  "inv_alarm (r\<lparr>lastAlarmState := x\<rparr>) = inv_alarm r"
  "inv_alarm (r\<lparr>lastArmAttempt := y\<rparr>) = inv_alarm r"
  "inv_alarm r \<Longrightarrow> inv_alarm (r\<lparr>errorCount := 0\<rparr>)"
  by (simp_all add: inv_alarm_def)

lemma inv_alarm_fetched:
  "inv_alarm r \<Longrightarrow> inv_alarm (fst (alarm_state_fetched now cur out r))"
  by (simp add: alarm_state_fetched_def no_action_def Let_def split_def
      inv_alarm_addStateHistory inv_alarm_updates inv_alarm_arm)

lemma inv_alarm_check: "inv_alarm r \<Longrightarrow> inv_alarm (fst (checkAndArm now fetch out r))"
  using inv_alarm_stop [of r] inv_alarm_fetched [of r]
  by (auto simp: checkAndArm_def addStateHistory_alarm_eq Let_def split_def inv_alarm_def
      split: sum.splits)

lemma inv_alarm_verify: "inv_alarm r \<Longrightarrow> inv_alarm (fst (verifyArmStatus now fetch r))"
  by (auto simp: inv_alarm_def verifyArmStatus_def addStateHistory_alarm_eq Let_def
      split: sum.splits)

lemma inv_alarm_clearTimer: "inv_alarm r \<Longrightarrow> inv_alarm (clearTimer i r)"
  by (auto simp: inv_alarm_def clearTimer_def)

lemma inv_alarm_fire: "inv_alarm r \<Longrightarrow> inv_alarm (fst (fire_alarm i now fetch out r))"
  by (simp add: fire_alarm_def inv_alarm_check inv_alarm_verify inv_alarm_clearTimer
      Let_def split: option.splits alarm_callback.splits)

lemma inv_alarm_init: "inv_alarm r \<Longrightarrow> inv_alarm (fst (initializeState_alarm now fetch r))"
  by (auto simp: inv_alarm_def initializeState_alarm_def addStateHistory_alarm_eq Let_def
      split: sum.splits)

lemma inv_alarm_started:
  "inv_alarm r \<Longrightarrow> \<not> isRunning r \<Longrightarrow>
     inv_alarm (r\<lparr>isRunning := True, errorCount := 0,
                  timers := timers r @ [Timer (nextTimerId r) 30000 True CheckTick],
                  nextTimerId := Suc (nextTimerId r),
                  checkInterval := Some (nextTimerId r)\<rparr>)"
  by (auto simp: inv_alarm_def)

lemma inv_alarm_start:
  "inv_alarm r \<Longrightarrow> inv_alarm (fst (start_alarm now fetch0 fetch out r))"
  by (simp add: start_alarm_def Let_def split_def inv_alarm_check inv_alarm_init
      inv_alarm_started setTimer_def)

lemma inv_alarm_step: "inv_alarm r \<Longrightarrow> inv_alarm (fst (step_alarm e r))"
  by (cases e) (simp_all add: inv_alarm_start inv_alarm_stop inv_alarm_fire)

lemma inv_alarm_run: "inv_alarm r \<Longrightarrow> inv_alarm (fst (run_alarm evs r))"
proof (induction evs arbitrary: r)
  case Nil
  then show ?case by simp
next
  case (Cons e evs)
  have "inv_alarm (fst (run_alarm evs (fst (step_alarm e r))))"
    using Cons.prems by (intro Cons.IH inv_alarm_step)
  then show ?case by (simp only: run_alarm_Cons)
qed

subsection \<open>What each block of the runners leaves unchanged\<close>

lemma show_nat_10: "show_nat 10 = ''10''"
  by (simp add: show_nat.simps)

lemma stop_motion_running:
  "isRunning r \<Longrightarrow>
     stop_motion r =
       (r\<lparr>isRunning := False,
          timers := filter (\<lambda>t. (\<forall>x. pollInterval r = Some x \<longrightarrow> tid t \<noteq> x) \<and>
                              (\<forall>x. timeoutId r = Some x \<longrightarrow> tid t \<noteq> x)) (timers r),
          pollInterval := None, timeoutId := None\<rparr>,
        [LogEvent ''stopped'' ''Automation stopped''])"
  by (cases "pollInterval r"; cases "timeoutId r")
     (simp_all add: stop_motion_def clearTimer_def Let_def)

lemma stop_alarm_running:
  "isRunning r \<Longrightarrow>
     stop_alarm r =
       (r\<lparr>isRunning := False,
          timers := filter (\<lambda>t. \<forall>x. checkInterval r = Some x \<longrightarrow> tid t \<noteq> x) (timers r),
          checkInterval := None\<rparr>,
        [LogEvent ''stopped'' ''Alarm auto-arm automation stopped''])"
  by (cases "checkInterval r") (simp_all add: stop_alarm_def clearTimer_def Let_def)

lemma motion_detected_fields:
  "errorCount (fst (motion_detected now l cur call r)) = errorCount r"
  "maxErrors (fst (motion_detected now l cur call r)) = maxErrors r"
  "isRunning (fst (motion_detected now l cur call r)) = isRunning r"
  "pollInterval (fst (motion_detected now l cur call r)) = pollInterval r"
  "settings (fst (motion_detected now l cur call r)) = settings r"
  "lastMotionState (fst (motion_detected now l cur call r)) = lastMotionState r"
  "timeoutId (fst (motion_detected now l cur call r)) = None"
  "timers (fst (motion_detected now l cur call r)) =
     (case timeoutId r of None \<Rightarrow> timers r
      | Some t \<Rightarrow> filter (\<lambda>x. tid x \<noteq> t) (timers r))"
  by (simp_all add: motion_detected_def addStateHistory_motion_eq clearTimer_def
      Let_def split_def split: option.splits)

lemma motion_stopped_fields:
  "errorCount (fst (motion_stopped now m l d cur r)) = errorCount r"
  "maxErrors (fst (motion_stopped now m l d cur r)) = maxErrors r"
  "isRunning (fst (motion_stopped now m l d cur r)) = isRunning r"
  "pollInterval (fst (motion_stopped now m l d cur r)) = pollInterval r"
  "settings (fst (motion_stopped now m l d cur r)) = settings r"
  "lastMotionState (fst (motion_stopped now m l d cur r)) = lastMotionState r"
  "timeoutId (fst (motion_stopped now m l d cur r)) = Some (nextTimerId r)"
  "timers (fst (motion_stopped now m l d cur r)) =
     timers r @ [Timer (nextTimerId r) (d * 1000) False (Countdown m l d)]"
  by (simp_all add: motion_stopped_def addStateHistory_motion_eq setTimer_def
      Let_def split_def)

lemma motion_state_fetched_fields:
  "errorCount (fst (motion_state_fetched now m l d cur call r)) = errorCount r"
  "maxErrors (fst (motion_state_fetched now m l d cur call r)) = maxErrors r"
  "isRunning (fst (motion_state_fetched now m l d cur call r)) = isRunning r"
  "pollInterval (fst (motion_state_fetched now m l d cur call r)) = pollInterval r"
  "settings (fst (motion_state_fetched now m l d cur call r)) = settings r"
  "lastMotionState (fst (motion_state_fetched now m l d cur call r)) = Some cur"
  by (simp_all add: motion_state_fetched_def addStateHistory_motion_eq
      motion_detected_fields motion_stopped_fields Let_def split_def)

lemma countdown_fired_fields:
  "errorCount (fst (countdown_fired now fetch call m l d r)) = errorCount r"
  "maxErrors (fst (countdown_fired now fetch call m l d r)) = maxErrors r"
  "isRunning (fst (countdown_fired now fetch call m l d r)) = isRunning r"
  "pollInterval (fst (countdown_fired now fetch call m l d r)) = pollInterval r"
  "settings (fst (countdown_fired now fetch call m l d r)) = settings r"
  "timers (fst (countdown_fired now fetch call m l d r)) = timers r"
  "timeoutId (fst (countdown_fired now fetch call m l d r)) = None"
  by (simp_all add: countdown_fired_def addStateHistory_motion_eq Let_def split_def
      split: option.splits sum.splits)

lemma checkMotionState_gate:
  "maxErrors r \<le> errorCount r \<Longrightarrow>
     checkMotionState now fetch call r =
       (fst (stop_motion r),
        LogEvent ''error''
          (''Automation stopped due to '' @ show_nat (errorCount r) @ '' consecutive errors'') #
        snd (stop_motion r))"
  by (simp add: checkMotionState_def split_def Let_def)





lemma checkAndArm_gate:
  "maxErrors r \<le> errorCount r \<Longrightarrow>
     checkAndArm now fetch out r =
       (fst (stop_alarm r),
        LogEvent ''error''
          (''Automation stopped due to '' @ show_nat (errorCount r) @ '' consecutive errors'') #
        snd (stop_alarm r))"
  by (simp add: checkAndArm_def split_def Let_def)

lemma checkAndArm_failed:
  "errorCount r < maxErrors r \<Longrightarrow>
     checkAndArm now (Inl msg) out r =
       (addStateHistory_alarm now ''fetch_error'' (''Failed to get alarm state: '' @ msg)
          (r\<lparr>errorCount := errorCount r + 1\<rparr>),
        [GetState alarm_panel, LogEvent ''error'' (''Failed to get alarm state: '' @ msg)])"
  by (simp add: checkAndArm_def Let_def)

lemma checkAndArm_fetched:
  "errorCount r < maxErrors r \<Longrightarrow>
     checkAndArm now (Inr e) out r =
       (fst (alarm_state_fetched now (state e) out r),
        GetState alarm_panel # snd (alarm_state_fetched now (state e) out r))"
  by (simp add: checkAndArm_def Let_def split_def)

lemma fire_alarm_poll:
  "find (\<lambda>t. tid t = j) (timers r) = Some u \<Longrightarrow> callback u = CheckTick \<Longrightarrow>
     recurring u \<Longrightarrow> fire_alarm j now fetch out r = checkAndArm now fetch out r"
  by (simp add: fire_alarm_def)

subsection \<open>The ten-strikes stop policy\<close>

lemma pending_poll_motion:
  assumes "inv_motion r" and "find (\<lambda>t. tid t = i) (timers r) = Some t"
      and "callback t = PollTick"
  shows "fire_motion i now fetch call r = checkMotionState now fetch call r"
    and "isRunning r" and "pollInterval r = Some i" and "maxErrors r = 10"
    and "errorCount r \<le> 10"
proof -
  from assms(2) have t: "t \<in> set (timers r)" "tid t = i"
    by (auto simp: find_Some_iff in_set_conv_nth)
  with assms(1,3) show "isRunning r" "pollInterval r = Some i" "maxErrors r = 10"
    "errorCount r \<le> 10"
    by (auto simp: inv_motion_def)
  from t assms(1,3) have "recurring t" by (auto simp: inv_motion_def)
  with assms(2,3) show "fire_motion i now fetch call r = checkMotionState now fetch call r"
    by (simp add: fire_motion_def)
qed


lemma pending_poll_alarm:
  assumes "inv_alarm r" and "find (\<lambda>t. tid t = j) (timers r) = Some u"
      and "callback u = CheckTick"
  shows "fire_alarm j now fetch out r = checkAndArm now fetch out r"
    and "isRunning r" and "checkInterval r = Some j" and "maxErrors r = 10"
    and "errorCount r \<le> 10"
proof -
  from assms(2) have u: "u \<in> set (timers r)" "tid u = j"
    by (auto simp: find_Some_iff in_set_conv_nth)
  with assms(1,3) show "isRunning r" "checkInterval r = Some j" "maxErrors r = 10"
    "errorCount r \<le> 10"
    by (auto simp: inv_alarm_def)
  from u assms(1,3) have "recurring u" by (auto simp: inv_alarm_def)
  with assms(2,3) show "fire_alarm j now fetch out r = checkAndArm now fetch out r"
    by (simp add: fire_alarm_def)
qed




lemma struck_motion_facts:
  "find (\<lambda>t. tid t = 1) (timers (struck_motion 0)) = Some (Timer 1 750 True PollTick)"
  "find (\<lambda>t. tid t = 1) (timers (struck_motion 3)) = Some (Timer 1 750 True PollTick)"
  "find (\<lambda>t. tid t = 1) (timers (struck_motion 10)) = Some (Timer 1 750 True PollTick)"
  "errorCount (struck_motion 0) = 0"
  "errorCount (struck_motion 3) = 3"
  "errorCount (struck_motion 10) = 10"
  "lastMotionState (struck_motion 0) = Some ''off''"
  "\<not> falsy (motion_entity (settings (struck_motion 3)))"
  "\<not> falsy (light_entity (settings (struck_motion 3)))"
  by code_simp+

lemma struck_alarm_facts:
  "find (\<lambda>t. tid t = 1) (timers (struck_alarm 0)) = Some (Timer 1 30000 True CheckTick)"
  "find (\<lambda>t. tid t = 1) (timers (struck_alarm 3)) = Some (Timer 1 30000 True CheckTick)"
  "find (\<lambda>t. tid t = 1) (timers (struck_alarm 10)) = Some (Timer 1 30000 True CheckTick)"
  "errorCount (struck_alarm 0) = 0"
  "errorCount (struck_alarm 3) = 3"
  "errorCount (struck_alarm 10) = 10"
  "lastAlarmState (struck_alarm 0) = Some ''armed_away''"
  by code_simp+


subsection \<open>Polls that overlap\<close>

text \<open>The whole poll is the poll up to its fetch followed at once by the rest: the runs
  of \<open>run_motion\<close> are the runs in which no two polls overlap.\<close>

lemma checkMotionState_split:
  "checkMotionState now fetch call r =
     (if reaches_fetch r
      then (fst (checkMotionState_settled now fetch call r),
            GetState (the (motion_entity (settings r))) #
            snd (checkMotionState_settled now fetch call r))
      else checkMotionState now (Inl []) None r)"
  by (cases fetch)
    (simp_all add: checkMotionState_def checkMotionState_settled_def reaches_fetch_def
      Let_def split_def)

lemma poll_begins_settles:
  assumes "find (\<lambda>t. tid t = i) (timers r) = Some t" and "callback t = PollTick"
      and "recurring t" and "reaches_fetch r"
  shows "run_async [Poll_begins i, Poll_settles now fetch call] (r, n) =
           ((fst (fire_motion i now fetch call r), n), snd (fire_motion i now fetch call r))"
proof -
  have "fire_motion i now fetch call r = checkMotionState now fetch call r"
    using assms(1-3) by (simp add: fire_motion_def)
  moreover have "checkMotionState now fetch call r =
      (fst (checkMotionState_settled now fetch call r),
       GetState (the (motion_entity (settings r))) #
       snd (checkMotionState_settled now fetch call r))"
    using assms(4) checkMotionState_split [of now fetch call r] by simp
  ultimately show ?thesis
    using assms by (simp add: Let_def split_def)
qed


subsection \<open>Edge-Triggered Runner: the two transitions and the countdown\<close>

lemma motion_detected_effects:
  "snd (motion_detected now l cur call r) =
     [CallService ''turn_on'' ''light'' l,
      (case call of
         None \<Rightarrow> LogEvent ''triggered'' (''Motion detected - turned on '' @ l)
       | Some msg \<Rightarrow> LogEvent ''error'' (''Failed to turn on light: '' @ msg)),
      UpdateTriggerCount]"
  by (simp add: motion_detected_def Let_def split_def split: option.splits)

lemma motion_stopped_effects:
  "snd (motion_stopped now m l d cur r) =
     [LogEvent ''triggered'' (''Motion stopped - starting '' @ show_int d @ ''s countdown'')]"
  by (simp add: motion_stopped_def Let_def split_def)

lemma countdown_fired_effects:
  "snd (countdown_fired now fetch call m l d r) =
     (case fetch of
        Inl msg \<Rightarrow> [GetState m, LogEvent ''error'' (''Error during timeout: '' @ msg)]
      | Inr e \<Rightarrow>
          if state e = ''off''
          then [GetState m, CallService ''turn_off'' ''light'' l,
                (case call of
                   None \<Rightarrow> LogEvent ''action_executed''
                            (''No motion for '' @ show_int d @ ''s - turned off '' @ l)
                 | Some msg \<Rightarrow> LogEvent ''error'' (''Failed to turn off light: '' @ msg))]
          else [GetState m,
                LogEvent ''triggered''
                  ''Motion detected during countdown - cancelled turn-off''])"
  by (simp add: countdown_fired_def Let_def split_def split: option.splits sum.splits)

lemma countdown_fired_lastMotionState:
  "lastMotionState (fst (countdown_fired now fetch call m l d r)) =
     (case fetch of
        Inl msg \<Rightarrow> lastMotionState r
      | Inr e \<Rightarrow> if state e = ''off'' then lastMotionState r else Some (state e))"
  by (simp add: countdown_fired_def addStateHistory_motion_eq Let_def split_def
      split: option.splits sum.splits)

lemma checkMotionState_fetched:
  assumes "errorCount r < maxErrors r"
      and "motion_entity (settings r) = Some m" "m \<noteq> []"
      and "light_entity (settings r) = Some l" "l \<noteq> []"
  shows "checkMotionState now (Inr e) call r =
     (fst (motion_state_fetched now m l (delaySeconds (settings r)) (state e) call
             (r\<lparr>errorCount := 0, consecutiveSuccesses := consecutiveSuccesses r + 1,
                lastSuccessfulPoll := Some now\<rparr>)),
      GetState m #
      snd (motion_state_fetched now m l (delaySeconds (settings r)) (state e) call
             (r\<lparr>errorCount := 0, consecutiveSuccesses := consecutiveSuccesses r + 1,
                lastSuccessfulPoll := Some now\<rparr>)))"
  using assms by (simp add: checkMotionState_def falsy_def Let_def split_def)

lemma motion_state_fetched_off_on:
  "lastMotionState r = Some ''off'' \<Longrightarrow>
     motion_state_fetched now m l d ''on'' call r =
       ((fst (motion_detected now l ''on'' call r))\<lparr>lastMotionState := Some ''on''\<rparr>,
        snd (motion_detected now l ''on'' call r))"
  by (simp add: motion_state_fetched_def Let_def split_def)

lemma motion_state_fetched_on_off:
  "lastMotionState r = Some ''on'' \<Longrightarrow>
     motion_state_fetched now m l d ''off'' call r =
       ((fst (motion_stopped now m l d ''off'' r))\<lparr>lastMotionState := Some ''off''\<rparr>,
        snd (motion_stopped now m l d ''off'' r))"
  by (simp add: motion_state_fetched_def Let_def split_def)

lemma fire_motion_countdown:
  "find (\<lambda>t. tid t = c) (timers r) = Some q \<Longrightarrow> callback q = Countdown m l d \<Longrightarrow>
     fire_motion c now fetch call r =
       countdown_fired now fetch call m l d (if recurring q then r else clearTimer c r)"
  by (simp add: fire_motion_def)

lemma find_filter_other:
  "find (\<lambda>t. tid t = i) xs = Some p \<Longrightarrow> i \<noteq> c \<Longrightarrow>
     find (\<lambda>t. tid t = i) (filter (\<lambda>t. tid t \<noteq> c) xs) = Some p"
  by (induction xs) (auto split: if_splits)

text \<open>
  C10. In the Edge-Triggered Runner a failed action invocation is contained. Let the
  runner be in any state reached from its construction, with both entities configured,
  fewer than 10 errors and its polling timer \<open>i\<close> pending. (a) On an off-to-on poll whose
  \<open>turn_on\<close> call is rejected, the failure is logged as an \<open>error\<close> event, the error counter
  is 0 as after every successful fetch, and the runner keeps running with its polling
  timer pending. (b) When a pending countdown fires, re-reads \<open>off\<close> and its \<open>turn_off\<close> call
  is rejected, the failure is logged, the error counter is unchanged, and the runner
  keeps running with its polling timer pending. (c) Whatever timer fires and whatever
  the outcome of the action, if the state fetch succeeded the error counter does not
  grow and the runner keeps running: only failed polls count toward the stop.
\<close>

theorem action_failure_contained:
  assumes "r = fst (run_motion evs (new_motion_runner st))"
      and "find (\<lambda>t. tid t = i) (timers r) = Some p" and "callback p = PollTick"
      and "motion_entity (settings r) = Some m" "m \<noteq> []"
      and "light_entity (settings r) = Some l" "l \<noteq> []"
      and "errorCount r < 10"
  shows
    "(lastMotionState r = Some ''off'' \<and> state e = ''on'' \<longrightarrow>
        snd (fire_motion i now (Inr e) (Some msg) r) =
          [GetState m, CallService ''turn_on'' ''light'' l,
           LogEvent ''error'' (''Failed to turn on light: '' @ msg), UpdateTriggerCount] \<and>
        errorCount (fst (fire_motion i now (Inr e) (Some msg) r)) = 0 \<and>
        isRunning (fst (fire_motion i now (Inr e) (Some msg) r)) \<and>
        find (\<lambda>t. tid t = i) (timers (fst (fire_motion i now (Inr e) (Some msg) r))) = Some p) \<and>
     (find (\<lambda>t. tid t = c) (timers r) = Some q \<and> callback q = Countdown m' l' d' \<and>
      state e = ''off'' \<longrightarrow>
        snd (fire_motion c now (Inr e) (Some msg) r) =
          [GetState m', CallService ''turn_off'' ''light'' l',
           LogEvent ''error'' (''Failed to turn off light: '' @ msg)] \<and>
        errorCount (fst (fire_motion c now (Inr e) (Some msg) r)) = errorCount r \<and>
        isRunning (fst (fire_motion c now (Inr e) (Some msg) r)) \<and>
        find (\<lambda>t. tid t = i) (timers (fst (fire_motion c now (Inr e) (Some msg) r))) = Some p) \<and>
     (errorCount (fst (fire_motion k now (Inr e) call r)) \<le> errorCount r \<and>
      isRunning (fst (fire_motion k now (Inr e) call r)))"
proof -
  have ir: "inv_motion r"
    unfolding assms(1) by (intro inv_motion_run inv_motion_new)
  note pm = pending_poll_motion [OF ir assms(2,3)]
  have lt: "errorCount r < maxErrors r"
    using assms(8) pm(4) by simp
  let ?r1 = "r\<lparr>errorCount := 0, consecutiveSuccesses := consecutiveSuccesses r + 1,
                lastSuccessfulPoll := Some now\<rparr>"
  note cf = checkMotionState_fetched [OF lt assms(4-7)]
  have keep: "find (\<lambda>t. tid t = i)
                (case timeoutId r of None \<Rightarrow> timers r
                 | Some t \<Rightarrow> filter (\<lambda>x. tid x \<noteq> t) (timers r)) = Some p"
  proof (cases "timeoutId r")
    case None
    then show ?thesis using assms(2) by simp
  next
    case (Some t)
    with ir pm(3) have "i \<noteq> t" by (auto simp: inv_motion_def)
    with Some assms(2) show ?thesis by (simp add: find_filter_other)
  qed
  have a: "lastMotionState r = Some ''off'' \<and> state e = ''on'' \<longrightarrow>
        snd (fire_motion i now (Inr e) (Some msg) r) =
          [GetState m, CallService ''turn_on'' ''light'' l,
           LogEvent ''error'' (''Failed to turn on light: '' @ msg), UpdateTriggerCount] \<and>
        errorCount (fst (fire_motion i now (Inr e) (Some msg) r)) = 0 \<and>
        isRunning (fst (fire_motion i now (Inr e) (Some msg) r)) \<and>
        find (\<lambda>t. tid t = i) (timers (fst (fire_motion i now (Inr e) (Some msg) r))) = Some p"
    using pm(2) keep
    by (simp add: pm(1) cf motion_state_fetched_off_on motion_detected_effects
        motion_detected_fields cong: option.case_cong)
  have b: "find (\<lambda>t. tid t = c) (timers r) = Some q \<and> callback q = Countdown m' l' d' \<and>
      state e = ''off'' \<longrightarrow>
        snd (fire_motion c now (Inr e) (Some msg) r) =
          [GetState m', CallService ''turn_off'' ''light'' l',
           LogEvent ''error'' (''Failed to turn off light: '' @ msg)] \<and>
        errorCount (fst (fire_motion c now (Inr e) (Some msg) r)) = errorCount r \<and>
        isRunning (fst (fire_motion c now (Inr e) (Some msg) r)) \<and>
        find (\<lambda>t. tid t = i) (timers (fst (fire_motion c now (Inr e) (Some msg) r))) = Some p"
  proof (intro impI)
    assume h: "find (\<lambda>t. tid t = c) (timers r) = Some q \<and> callback q = Countdown m' l' d' \<and>
      state e = ''off''"
    then have "i \<noteq> c" using assms(2,3) by auto
    then show "snd (fire_motion c now (Inr e) (Some msg) r) =
          [GetState m', CallService ''turn_off'' ''light'' l',
           LogEvent ''error'' (''Failed to turn off light: '' @ msg)] \<and>
        errorCount (fst (fire_motion c now (Inr e) (Some msg) r)) = errorCount r \<and>
        isRunning (fst (fire_motion c now (Inr e) (Some msg) r)) \<and>
        find (\<lambda>t. tid t = i) (timers (fst (fire_motion c now (Inr e) (Some msg) r))) = Some p"
      using h pm(2) assms(2)
      by (simp add: fire_motion_countdown countdown_fired_effects countdown_fired_fields
          clearTimer_def find_filter_other)
  qed
  have c: "errorCount (fst (fire_motion k now (Inr e) call r)) \<le> errorCount r \<and>
      isRunning (fst (fire_motion k now (Inr e) call r))"
  proof (cases "find (\<lambda>t. tid t = k) (timers r)")
    case None
    then show ?thesis using pm(2) by (simp add: fire_motion_def)
  next
    case (Some t)
    show ?thesis
    proof (cases "callback t")
      case PollTick
      then show ?thesis
        using pending_poll_motion(1) [OF ir Some PollTick] pm(2)
        by (simp add: cf motion_state_fetched_fields)
    next
      case (Countdown m'' l'' d'')
      then show ?thesis
        using Some pm(2)
        by (simp add: fire_motion_countdown countdown_fired_fields clearTimer_def)
    qed
  qed
  from a b c show ?thesis by blast
qed

lemma struck_motion_0_facts:
  "motion_entity (settings (struck_motion 0)) = Some ''m1''"
  "light_entity (settings (struck_motion 0)) = Some ''l1''"
  "errorCount (struck_motion 0) < 10"
  "timeoutId (struck_motion 0) = None"
  "isRunning (struck_motion 0)"
  by code_simp+

lemma counting_motion_facts:
  "find (\<lambda>t. tid t = 1) (timers counting_motion) = Some (Timer 1 750 True PollTick)"
  "find (\<lambda>t. tid t = 2) (timers counting_motion) =
     Some (Timer 2 15000 False (Countdown ''m1'' ''l1'' 15))"
  "timers counting_motion =
     [Timer 1 750 True PollTick, Timer 2 15000 False (Countdown ''m1'' ''l1'' 15)]"
  "motion_entity (settings counting_motion) = Some ''m1''"
  "light_entity (settings counting_motion) = Some ''l1''"
  "errorCount counting_motion < 10"
  "errorCount counting_motion = 0"
  "lastMotionState counting_motion = Some ''off''"
  "timeoutId counting_motion = Some 2"
  "pollInterval counting_motion = Some 1"
  "isRunning counting_motion"
  by code_simp+

theorem action_failure_contained_witness:
  "snd (fire_motion 1 750 (Inr (entity ''on'')) (Some ''HTTP 500'') (struck_motion 0)) =
     [GetState ''m1'', CallService ''turn_on'' ''light'' ''l1'',
      LogEvent ''error'' ''Failed to turn on light: HTTP 500'', UpdateTriggerCount] \<and>
   errorCount (fst (fire_motion 1 750 (Inr (entity ''on'')) (Some ''HTTP 500'')
                      (struck_motion 0))) = 0 \<and>
   isRunning (fst (fire_motion 1 750 (Inr (entity ''on'')) (Some ''HTTP 500'')
                     (struck_motion 0))) \<and>
   snd (fire_motion 2 15750 (Inr (entity ''off'')) (Some ''HTTP 500'') counting_motion) =
     [GetState ''m1'', CallService ''turn_off'' ''light'' ''l1'',
      LogEvent ''error'' ''Failed to turn off light: HTTP 500''] \<and>
   errorCount (fst (fire_motion 2 15750 (Inr (entity ''off'')) (Some ''HTTP 500'')
                      counting_motion)) = 0 \<and>
   isRunning (fst (fire_motion 2 15750 (Inr (entity ''off'')) (Some ''HTTP 500'')
                     counting_motion)) \<and>
   find (\<lambda>t. tid t = 1)
     (timers (fst (fire_motion 2 15750 (Inr (entity ''off'')) (Some ''HTTP 500'')
                     counting_motion))) = Some (Timer 1 750 True PollTick)"
proof -
  have p: "callback (Timer 1 750 True PollTick) = PollTick" by simp
  have ne: "''m1'' \<noteq> []" "''l1'' \<noteq> []" by simp_all
  note a = action_failure_contained [OF struck_motion_def struck_motion_facts(1) p
             struck_motion_0_facts(1) ne(1) struck_motion_0_facts(2) ne(2)
             struck_motion_0_facts(3),
             of "entity ''on''" 750 "''HTTP 500''"]
  note b = action_failure_contained [OF counting_motion_def counting_motion_facts(1) p
             counting_motion_facts(4) ne(1) counting_motion_facts(5) ne(2)
             counting_motion_facts(6),
             of "entity ''off''" 15750 "''HTTP 500''" 2
                "Timer 2 15000 False (Countdown ''m1'' ''l1'' 15)" "''m1''" "''l1''" 15]
  show ?thesis
    using a b
    by (simp add: struck_motion_facts counting_motion_facts entity_def)
qed

subsection \<open>Edge-Triggered Runner: the deferred turn-off\<close>

lemma motion_detected_history:
  "stateHistory (fst (motion_detected now l cur call r)) =
     slice_last 50
       (stateHistory r @
        \<lparr>timestamp = now, action = ''motion_detected'', motionState = cur,
          errorCount_at = errorCount r, consecutiveSuccesses_at = consecutiveSuccesses r,
          additionalData = Null\<rparr> #
        (case timeoutId r of
           None \<Rightarrow> []
         | Some t \<Rightarrow>
             [\<lparr>timestamp = now, action = ''countdown_cancelled'', motionState = cur,
               errorCount_at = errorCount r,
               consecutiveSuccesses_at = consecutiveSuccesses r,
               additionalData = Null\<rparr>]) @
        [\<lparr>timestamp = now,
          action = (case call of None \<Rightarrow> ''light_turned_on'' | Some msg \<Rightarrow> ''light_error''),
          motionState = cur,
          errorCount_at = errorCount r, consecutiveSuccesses_at = consecutiveSuccesses r,
          additionalData = (case call of None \<Rightarrow> Null | Some msg \<Rightarrow> ErrorInfo msg)\<rparr>])"
  by (cases "timeoutId r"; cases call)
     (simp_all add: motion_detected_def addStateHistory_motion_eq clearTimer_def
       slice_last_append Let_def)

lemma slice_last_3:
  "slice_last 3 (slice_last 50 (h @ [a, b, c])) = [a, b, c]"
  by (simp add: slice_last_slice_last) (simp add: slice_last_def)

lemma find_filter_same:
  "find (\<lambda>t. tid t = c) (filter (\<lambda>t. tid t \<noteq> c) xs) = None"
  by (simp add: find_None_iff)

lemma find_fresh:
  "\<forall>t \<in> set xs. tid t < n \<Longrightarrow> find (\<lambda>t. tid t = n) (xs @ [Timer n d b cb]) = Some (Timer n d b cb)"
  by (induction xs) auto

lemma delaySeconds_cases:
  "(delay_seconds st = None \<longrightarrow> delaySeconds st = 15) \<and>
   (\<forall>n. delay_seconds st = Some n \<and> n \<noteq> 0 \<longrightarrow> delaySeconds st = n)"
  by (simp add: delaySeconds_def)

lemma no_call_in_countdown:
  "CallService ''turn_off'' ''light'' l \<in> set (snd (countdown_fired now fetch call m l d r))
     \<longleftrightarrow> (\<exists>e. fetch = Inr e \<and> state e = ''off'')"
  by (cases fetch) (simp_all add: countdown_fired_effects split: option.splits)

text \<open>
  The deferred turn-off of the Edge-Triggered Runner, as far as \<open>timeoutId\<close> keeps track
  of it. Let the runner be in any state reached from its construction, with both
  entities configured, fewer than 10 errors and its polling timer \<open>i\<close> pending.
  (a) An on-to-off poll registers a fresh one-shot timer whose delay is \<open>delaySeconds\<close>
  seconds and stores its handle in \<open>timeoutId\<close>; no service call is made yet.
  \<open>delaySeconds\<close> is the configured \<open>delay_seconds\<close> when that is a non-zero number, and
  15 when it is absent or not a number (a configured 0 reads as absent).
  (b) When a pending countdown fires it first re-queries the motion entity, and it calls
  \<open>turn_off\<close> on the light exactly when the re-query succeeds with state \<open>off\<close>. If the
  re-query returns another state, such as \<open>on\<close>, it makes no service call and sets
  \<open>lastMotionState\<close> to that state.
  (c) An off-to-on poll while \<open>timeoutId\<close> holds a handle clears that timer, so that it
  no longer fires, resets \<open>timeoutId\<close>, and writes \<open>motion_detected\<close>,
  \<open>countdown_cancelled\<close> and the outcome of the \<open>turn_on\<close> call as the newest three
  history entries.
\<close>

lemma deferred_turn_off:
  assumes "r = fst (run_motion evs (new_motion_runner st))"
      and "find (\<lambda>t. tid t = i) (timers r) = Some p" and "callback p = PollTick"
      and "motion_entity (settings r) = Some m" "m \<noteq> []"
      and "light_entity (settings r) = Some l" "l \<noteq> []"
      and "errorCount r < 10"
  shows
    "(lastMotionState r = Some ''on'' \<and> state e = ''off'' \<longrightarrow>
        timers (fst (fire_motion i now (Inr e) call r)) =
          timers r @ [Timer (nextTimerId r) (delaySeconds (settings r) * 1000) False
                        (Countdown m l (delaySeconds (settings r)))] \<and>
        find (\<lambda>t. tid t = nextTimerId r) (timers (fst (fire_motion i now (Inr e) call r))) =
          Some (Timer (nextTimerId r) (delaySeconds (settings r) * 1000) False
                  (Countdown m l (delaySeconds (settings r)))) \<and>
        timeoutId (fst (fire_motion i now (Inr e) call r)) = Some (nextTimerId r) \<and>
        lastMotionState (fst (fire_motion i now (Inr e) call r)) = Some ''off'' \<and>
        snd (fire_motion i now (Inr e) call r) =
          [GetState m,
           LogEvent ''triggered''
             (''Motion stopped - starting '' @ show_int (delaySeconds (settings r)) @
              ''s countdown'')]) \<and>
     (delay_seconds (settings r) = None \<longrightarrow> delaySeconds (settings r) = 15) \<and>
     (\<forall>n. delay_seconds (settings r) = Some n \<and> n \<noteq> 0 \<longrightarrow> delaySeconds (settings r) = n) \<and>
     (find (\<lambda>t. tid t = c) (timers r) = Some q \<and> callback q = Countdown m' l' d' \<longrightarrow>
        (\<exists>es. snd (fire_motion c now fetch call r) = GetState m' # es) \<and>
        (CallService ''turn_off'' ''light'' l' \<in> set (snd (fire_motion c now fetch call r)) \<longleftrightarrow>
           (\<exists>e'. fetch = Inr e' \<and> state e' = ''off'')) \<and>
        (state e \<noteq> ''off'' \<longrightarrow>
           snd (fire_motion c now (Inr e) call r) =
             [GetState m',
              LogEvent ''triggered''
                ''Motion detected during countdown - cancelled turn-off''] \<and>
           lastMotionState (fst (fire_motion c now (Inr e) call r)) = Some (state e))) \<and>
     (lastMotionState r = Some ''off'' \<and> state e = ''on'' \<and> timeoutId r = Some c \<longrightarrow>
        find (\<lambda>t. tid t = c) (timers (fst (fire_motion i now (Inr e) call r))) = None \<and>
        timeoutId (fst (fire_motion i now (Inr e) call r)) = None \<and>
        map action (slice_last 3 (stateHistory (fst (fire_motion i now (Inr e) call r)))) =
          [''motion_detected'', ''countdown_cancelled'',
           (case call of None \<Rightarrow> ''light_turned_on'' | Some msg \<Rightarrow> ''light_error'')])"
proof -
  have ir: "inv_motion r"
    unfolding assms(1) by (intro inv_motion_run inv_motion_new)
  note pm = pending_poll_motion [OF ir assms(2,3)]
  have lt: "errorCount r < maxErrors r"
    using assms(8) pm(4) by simp
  note cf = checkMotionState_fetched [OF lt assms(4-7)]
  have fresh: "\<forall>t \<in> set (timers r). tid t < nextTimerId r"
    using ir by (simp add: inv_motion_def)
  have a: "lastMotionState r = Some ''on'' \<and> state e = ''off'' \<longrightarrow>
        timers (fst (fire_motion i now (Inr e) call r)) =
          timers r @ [Timer (nextTimerId r) (delaySeconds (settings r) * 1000) False
                        (Countdown m l (delaySeconds (settings r)))] \<and>
        find (\<lambda>t. tid t = nextTimerId r) (timers (fst (fire_motion i now (Inr e) call r))) =
          Some (Timer (nextTimerId r) (delaySeconds (settings r) * 1000) False
                  (Countdown m l (delaySeconds (settings r)))) \<and>
        timeoutId (fst (fire_motion i now (Inr e) call r)) = Some (nextTimerId r) \<and>
        lastMotionState (fst (fire_motion i now (Inr e) call r)) = Some ''off'' \<and>
        snd (fire_motion i now (Inr e) call r) =
          [GetState m,
           LogEvent ''triggered''
             (''Motion stopped - starting '' @ show_int (delaySeconds (settings r)) @
              ''s countdown'')]"
    using fresh
    by (simp add: pm(1) cf motion_state_fetched_on_off motion_stopped_fields
        motion_stopped_effects find_fresh)
  have b: "find (\<lambda>t. tid t = c) (timers r) = Some q \<and> callback q = Countdown m' l' d' \<longrightarrow>
        (\<exists>es. snd (fire_motion c now fetch call r) = GetState m' # es) \<and>
        (CallService ''turn_off'' ''light'' l' \<in> set (snd (fire_motion c now fetch call r)) \<longleftrightarrow>
           (\<exists>e'. fetch = Inr e' \<and> state e' = ''off'')) \<and>
        (state e \<noteq> ''off'' \<longrightarrow>
           snd (fire_motion c now (Inr e) call r) =
             [GetState m',
              LogEvent ''triggered''
                ''Motion detected during countdown - cancelled turn-off''] \<and>
           lastMotionState (fst (fire_motion c now (Inr e) call r)) = Some (state e))"
  proof (intro impI conjI)
    assume h: "find (\<lambda>t. tid t = c) (timers r) = Some q \<and> callback q = Countdown m' l' d'"
    then have f: "\<And>fetch. fire_motion c now fetch call r =
        countdown_fired now fetch call m' l' d' (if recurring q then r else clearTimer c r)"
      by (simp add: fire_motion_countdown)
    show "\<exists>es. snd (fire_motion c now fetch call r) = GetState m' # es"
      by (simp add: f countdown_fired_effects split: sum.splits)
    show "CallService ''turn_off'' ''light'' l' \<in> set (snd (fire_motion c now fetch call r)) \<longleftrightarrow>
           (\<exists>e'. fetch = Inr e' \<and> state e' = ''off'')"
      by (simp only: f no_call_in_countdown)
    assume "state e \<noteq> ''off''"
    then show "snd (fire_motion c now (Inr e) call r) =
             [GetState m',
              LogEvent ''triggered''
                ''Motion detected during countdown - cancelled turn-off'']"
      and "lastMotionState (fst (fire_motion c now (Inr e) call r)) = Some (state e)"
      by (simp_all add: f countdown_fired_effects countdown_fired_lastMotionState)
  qed
  have c: "lastMotionState r = Some ''off'' \<and> state e = ''on'' \<and> timeoutId r = Some c \<longrightarrow>
        find (\<lambda>t. tid t = c) (timers (fst (fire_motion i now (Inr e) call r))) = None \<and>
        timeoutId (fst (fire_motion i now (Inr e) call r)) = None \<and>
        map action (slice_last 3 (stateHistory (fst (fire_motion i now (Inr e) call r)))) =
          [''motion_detected'', ''countdown_cancelled'',
           (case call of None \<Rightarrow> ''light_turned_on'' | Some msg \<Rightarrow> ''light_error'')]"
    by (simp add: pm(1) cf motion_state_fetched_off_on motion_detected_fields
        motion_detected_history find_filter_same slice_last_3)
  from a b c delaySeconds_cases [of "settings r"] show ?thesis by blast
qed

lemma started_motion_run:
  "started_motion s =
     fst (run_motion [Start_motion 0 (Inr (entity s))] (new_motion_runner scenario_settings))"
  by (simp add: started_motion_def split_def)

lemma started_motion_on_facts:
  "find (\<lambda>t. tid t = 1) (timers (started_motion ''on'')) = Some (Timer 1 750 True PollTick)"
  "motion_entity (settings (started_motion ''on'')) = Some ''m1''"
  "light_entity (settings (started_motion ''on'')) = Some ''l1''"
  "errorCount (started_motion ''on'') < 10"
  "lastMotionState (started_motion ''on'') = Some ''on''"
  "nextTimerId (started_motion ''on'') = 2"
  "delaySeconds (settings (started_motion ''on'')) = 15"
  "timers (started_motion ''on'') = [Timer 1 750 True PollTick]"
  by code_simp+

lemma deferred_turn_off_instances:
  "timers (fst (fire_motion 1 750 (Inr (entity ''off'')) None (started_motion ''on''))) =
     [Timer 1 750 True PollTick, Timer 2 15000 False (Countdown ''m1'' ''l1'' 15)] \<and>
   timeoutId (fst (fire_motion 1 750 (Inr (entity ''off'')) None (started_motion ''on''))) =
     Some 2 \<and>
   CallService ''turn_off'' ''light'' ''l1'' \<in>
     set (snd (fire_motion 2 15750 (Inr (entity ''off'')) None counting_motion)) \<and>
   snd (fire_motion 2 15750 (Inr (entity ''on'')) None counting_motion) =
     [GetState ''m1'',
      LogEvent ''triggered'' ''Motion detected during countdown - cancelled turn-off''] \<and>
   lastMotionState (fst (fire_motion 2 15750 (Inr (entity ''on'')) None counting_motion)) =
     Some ''on'' \<and>
   find (\<lambda>t. tid t = 2)
     (timers (fst (fire_motion 1 1500 (Inr (entity ''on'')) None counting_motion))) = None \<and>
   timeoutId (fst (fire_motion 1 1500 (Inr (entity ''on'')) None counting_motion)) = None \<and>
   map action
     (slice_last 3
        (stateHistory (fst (fire_motion 1 1500 (Inr (entity ''on'')) None counting_motion)))) =
     [''motion_detected'', ''countdown_cancelled'', ''light_turned_on'']"
proof -
  have p: "callback (Timer 1 750 True PollTick) = PollTick" by simp
  have ne: "''m1'' \<noteq> []" "''l1'' \<noteq> []" by simp_all
  note a = deferred_turn_off [OF started_motion_run started_motion_on_facts(1) p
             started_motion_on_facts(2) ne(1) started_motion_on_facts(3) ne(2)
             started_motion_on_facts(4),
             of "entity ''off''" 750 None]
  note b = deferred_turn_off [OF counting_motion_def counting_motion_facts(1) p
             counting_motion_facts(4) ne(1) counting_motion_facts(5) ne(2)
             counting_motion_facts(6),
             of "entity ''on''" _ None 2
                "Timer 2 15000 False (Countdown ''m1'' ''l1'' 15)" "''m1''" "''l1''" 15
                "Inr (entity ''off'')"]
  show ?thesis
    using a b [of 15750] b [of 1500]
    by (simp add: started_motion_on_facts counting_motion_facts entity_def)
qed

text \<open>
  C2, at an input where the code departs from it. The sensor reads \<open>on\<close>, \<open>off\<close>,
  \<open>unavailable\<close>, \<open>on\<close>, \<open>off\<close>: the second on-to-off transition overwrites \<open>timeoutId\<close>
  without clearing the first countdown. The first countdown fires, re-reads \<open>off\<close>, turns
  the light off and sets \<open>timeoutId\<close> to \<open>null\<close>, while the second countdown (handle 3)
  is still pending. The next poll reads \<open>on\<close>: it turns the light on, but with \<open>timeoutId\<close>
  \<open>null\<close> it cancels nothing and writes no \<open>countdown_cancelled\<close> entry, and the second
  countdown stays pending. When motion stops again 750 ms later and that countdown
  fires, it re-reads \<open>off\<close> and turns the light off.
\<close>

theorem pending_countdown_not_cancelled:
  "timers lost_countdown =
     [Timer 1 750 True PollTick, Timer 3 15000 False (Countdown ''m1'' ''l1'' 15)] \<and>
   timeoutId lost_countdown = None \<and>
   lastMotionState lost_countdown = Some ''off'' \<and>
   timers (fst (fire_motion 1 16500 (Inr (entity ''on'')) None lost_countdown)) =
     [Timer 1 750 True PollTick, Timer 3 15000 False (Countdown ''m1'' ''l1'' 15)] \<and>
   map action (stateHistory (fst (fire_motion 1 16500 (Inr (entity ''on'')) None lost_countdown))) =
     [''initialized'', ''countdown_started'', ''countdown_started'', ''light_turned_off'',
      ''motion_detected'', ''light_turned_on''] \<and>
   snd (fire_motion 1 16500 (Inr (entity ''on'')) None lost_countdown) =
     [GetState ''m1'', CallService ''turn_on'' ''light'' ''l1'',
      LogEvent ''triggered'' ''Motion detected - turned on l1'', UpdateTriggerCount] \<and>
   snd (fire_motion 3 18000 (Inr (entity ''off'')) None
          (fst (fire_motion 1 17250 (Inr (entity ''off'')) None
                  (fst (fire_motion 1 16500 (Inr (entity ''on'')) None lost_countdown))))) =
     [GetState ''m1'', CallService ''turn_off'' ''light'' ''l1'',
      LogEvent ''action_executed'' ''No motion for 15s - turned off l1'']"
  by code_simp

subsection \<open>Which failed polls reach the event log\<close>

lemma checkMotionState_fetch_rejected:
  assumes "errorCount r < maxErrors r"
      and "motion_entity (settings r) = Some m" "m \<noteq> []"
      and "light_entity (settings r) = Some l" "l \<noteq> []"
  shows "checkMotionState now (Inl msg) call r =
     (addStateHistory_motion now ''error'' ''motion_state_error''
        (ErrorCountInfo msg (errorCount r + 1))
        (r\<lparr>errorCount := errorCount r + 1, consecutiveSuccesses := 0\<rparr>),
      GetState m #
      (if errorCount r + 1 = 1 \<or> (errorCount r + 1) mod 5 = 0
       then [LogEvent ''error''
               (''Failed to get motion state ('' @ show_nat (errorCount r + 1) @ ''/'' @
                show_nat (maxErrors r) @ ''): '' @ msg)]
       else []))"
  using assms
  by (simp add: checkMotionState_def motion_state_error_def falsy_def
      addStateHistory_motion_eq Let_def)

text \<open>
  C8, as the code has it. A failed poll is one whose state fetch is rejected; with the
  error counter at \<open>n\<close> before it, it is failure number \<open>n + 1\<close> of its run of consecutive
  failures. Let the runner be in any state reached from its construction with its
  polling timer pending and fewer than 10 errors. In the Edge-Triggered Runner (entities
  configured) the failed poll writes an \<open>error\<close> event exactly when \<open>n + 1\<close> is 1 or a
  multiple of 5, and always appends a \<open>motion_state_error\<close> history entry. In the
  Scheduled-Window Runner every failed poll writes an \<open>error\<close> event and appends a
  \<open>fetch_error\<close> history entry.
\<close>

theorem failed_poll_logging:
  assumes "r = fst (run_motion evs (new_motion_runner st))"
      and "find (\<lambda>t. tid t = i) (timers r) = Some p" and "callback p = PollTick"
      and "motion_entity (settings r) = Some m" "m \<noteq> []"
      and "light_entity (settings r) = Some l" "l \<noteq> []"
      and "errorCount r < 10"
      and "a = fst (run_alarm evs' new_alarm_runner)"
      and "find (\<lambda>t. tid t = j) (timers a) = Some u" and "callback u = CheckTick"
      and "errorCount a < 10"
  shows
    "snd (fire_motion i now (Inl msg) call r) =
       GetState m #
       (if errorCount r + 1 = 1 \<or> (errorCount r + 1) mod 5 = 0
        then [LogEvent ''error''
                (''Failed to get motion state ('' @ show_nat (errorCount r + 1) @ ''/10): '' @
                 msg)]
        else []) \<and>
     stateHistory (fst (fire_motion i now (Inl msg) call r)) =
       slice_last 50
         (stateHistory r @
          [\<lparr>timestamp = now, action = ''motion_state_error'', motionState = ''error'',
            errorCount_at = errorCount r + 1, consecutiveSuccesses_at = 0,
            additionalData = ErrorCountInfo msg (errorCount r + 1)\<rparr>]) \<and>
     snd (fire_alarm j anow (Inl msg) out a) =
       [GetState alarm_panel, LogEvent ''error'' (''Failed to get alarm state: '' @ msg)] \<and>
     stateHistory (fst (fire_alarm j anow (Inl msg) out a)) =
       slice_last 100
         (stateHistory a @
          [\<lparr>timestamp = getTime anow, action = ''fetch_error'',
            details = ''Failed to get alarm state: '' @ msg,
            alarmState = lastAlarmState a,
            inWindow = isInArmingWindow (getHours anow) (getMinutes anow)\<rparr>])"
proof -
  have ir: "inv_motion r"
    unfolding assms(1) by (intro inv_motion_run inv_motion_new)
  have ia: "inv_alarm a"
    unfolding assms(9) by (intro inv_alarm_run inv_alarm_new)
  note pm = pending_poll_motion [OF ir assms(2,3)]
  note pa = pending_poll_alarm [OF ia assms(10,11)]
  have lr: "errorCount r < maxErrors r" using assms(8) pm(4) by simp
  have la: "errorCount a < maxErrors a" using assms(12) pa(4) by simp
  show ?thesis
    using pm(4)
    by (simp add: pm(1) pa(1) checkMotionState_fetch_rejected [OF lr assms(4-7)]
        checkAndArm_failed [OF la] addStateHistory_motion_eq addStateHistory_alarm_eq
        show_nat_10)
qed

theorem failed_poll_logging_witness:
  "snd (fire_motion 1 750 (Inl ''timeout'') None (struck_motion 0)) =
     [GetState ''m1'', LogEvent ''error'' ''Failed to get motion state (1/10): timeout''] \<and>
   snd (fire_motion 1 750 (Inl ''timeout'') None (struck_motion 3)) = [GetState ''m1''] \<and>
   snd (fire_alarm 1 (clock 30000 12 0) (Inl ''timeout'') arm_ok (struck_alarm 3)) =
     [GetState alarm_panel, LogEvent ''error'' ''Failed to get alarm state: timeout'']"
proof -
  have p: "callback (Timer 1 750 True PollTick) = PollTick"
          "callback (Timer 1 30000 True CheckTick) = CheckTick"
    by simp_all
  have ne: "''m1'' \<noteq> []" "''l1'' \<noteq> []" by simp_all
  have s3: "motion_entity (settings (struck_motion 3)) = Some ''m1''"
           "light_entity (settings (struck_motion 3)) = Some ''l1''"
           "errorCount (struck_motion 3) < 10" "errorCount (struck_alarm 0) < 10"
           "errorCount (struck_alarm 3) < 10"
    by code_simp+
  have sn: "show_nat (Suc 0) = ''1''" by (simp add: show_nat.simps)
  note w0 = failed_poll_logging [OF struck_motion_def struck_motion_facts(1) p(1)
              struck_motion_0_facts(1) ne(1) struck_motion_0_facts(2) ne(2)
              struck_motion_0_facts(3) struck_alarm_def struck_alarm_facts(1) p(2) s3(4),
              of 750 "''timeout''" None "clock 30000 12 0" arm_ok]
  note w3 = failed_poll_logging [OF struck_motion_def struck_motion_facts(2) p(1)
              s3(1) ne(1) s3(2) ne(2) s3(3) struck_alarm_def struck_alarm_facts(2) p(2) s3(5),
              of 750 "''timeout''" None "clock 30000 12 0" arm_ok]
  show ?thesis
    using w0 w3 by (simp add: struck_motion_facts struck_alarm_facts sn)
qed

text \<open>
  C8 as stated fails for the Scheduled-Window Runner: the second consecutive failed
  poll, which is neither the first nor a fifth, writes an \<open>error\<close> event.
\<close>

theorem alarm_logs_second_failure:
  "errorCount (struck_alarm 1) = 1 \<and>
   snd (fire_alarm 1 (clock 30000 12 0) (Inl ''timeout'') arm_ok (struck_alarm 1)) =
     [GetState ''alarm_control_panel.home_alarm'',
      LogEvent ''error'' ''Failed to get alarm state: timeout'']"
  by code_simp

subsection \<open>When the trigger count is updated\<close>

lemma count_stop_motion: "count_list (snd (stop_motion r)) UpdateTriggerCount = 0"
  by (simp add: stop_motion_def Let_def)

lemma count_stop_alarm: "count_list (snd (stop_alarm r)) UpdateTriggerCount = 0"
  by (simp add: stop_alarm_def Let_def)

lemma count_motion_state_fetched:
  "count_list (snd (motion_state_fetched now m l d cur call r)) UpdateTriggerCount =
     (if lastMotionState r = Some ''off'' \<and> cur = ''on'' then 1 else 0)"
  by (auto simp: motion_state_fetched_def motion_detected_effects motion_stopped_effects
      Let_def split_def split: option.splits)

lemma count_checkMotionState:
  "count_list (snd (checkMotionState now fetch call r)) UpdateTriggerCount =
     (if errorCount r < maxErrors r \<and> \<not> falsy (motion_entity (settings r)) \<and>
         \<not> falsy (light_entity (settings r)) \<and> lastMotionState r = Some ''off'' \<and>
         (\<exists>e. fetch = Inr e \<and> state e = ''on'')
      then 1 else 0)"
proof (cases "errorCount r < maxErrors r")
  case False
  then show ?thesis
    by (simp add: checkMotionState_gate count_stop_motion)
next
  case True
  show ?thesis
  proof (cases "falsy (motion_entity (settings r)) \<or> falsy (light_entity (settings r))")
    case True
    with \<open>errorCount r < maxErrors r\<close> show ?thesis
      by (auto simp: checkMotionState_def general_error_motion_def Let_def)
  next
    case False
    with True show ?thesis
      by (cases fetch)
        (auto simp: checkMotionState_def motion_state_error_def count_motion_state_fetched
          Let_def split_def)
  qed
qed

lemma count_countdown_fired:
  "count_list (snd (countdown_fired now fetch call m l d r)) UpdateTriggerCount = 0"
  by (simp add: countdown_fired_effects split: sum.splits option.splits)

lemma count_armAlarmWithValidation:
  "count_list (snd (armAlarmWithValidation now out r)) UpdateTriggerCount = 0"
  by (simp add: armAlarmWithValidation_def arm_error_def arm_completed_def Let_def split_def
      split: sum.splits option.splits)

lemma count_list_append: "count_list (xs @ ys) x = count_list xs x + count_list ys x"
  by (induction xs) auto

lemma count_alarm_state_fetched:
  "count_list (snd (alarm_state_fetched now cur out r)) UpdateTriggerCount =
     (if isInArmingWindow (getHours now) (getMinutes now) \<and> cur = ''disarmed'' \<and>
         (\<exists>la. lastArmAttempt r = Some la \<and> armCooldown r - (getTime now - getTime la) > 0)
      then 0 else 1)"
  by (cases "lastArmAttempt r")
    (simp_all add: alarm_state_fetched_def count_armAlarmWithValidation count_list_append
      addStateHistory_alarm_eq Let_def split_def)

lemma count_checkAndArm:
  "count_list (snd (checkAndArm now fetch out r)) UpdateTriggerCount =
     (if errorCount r < maxErrors r \<and>
         (\<exists>e. fetch = Inr e \<and>
            \<not> (isInArmingWindow (getHours now) (getMinutes now) \<and> state e = ''disarmed'' \<and>
               (\<exists>la. lastArmAttempt r = Some la \<and>
                  armCooldown r - (getTime now - getTime la) > 0)))
      then 1 else 0)"
proof (cases "errorCount r < maxErrors r")
  case False
  then show ?thesis
    by (simp add: checkAndArm_gate count_stop_alarm)
next
  case True
  then show ?thesis
    by (cases fetch)
      (simp_all add: checkAndArm_failed checkAndArm_fetched count_alarm_state_fetched)
qed

text \<open>
  C9, as the code has it. The number of trigger-count updates a callback makes:
  the poll of the Edge-Triggered Runner makes exactly one when it is not stopped by the
  error threshold, both entities are configured, the last observed state is \<open>off\<close> and the
  fetched state is \<open>on\<close>, and none otherwise (in particular none on an on-to-off
  transition); its countdown callback makes none. The poll of the Scheduled-Window
  Runner makes exactly one whenever it is not stopped by the error threshold, its fetch
  succeeds and it is not skipped by the cooldown, whether or not the panel state has
  changed, and none otherwise.
\<close>

theorem trigger_count_updates:
  "count_list (snd (checkMotionState now fetch call r)) UpdateTriggerCount =
     (if errorCount r < maxErrors r \<and> \<not> falsy (motion_entity (settings r)) \<and>
         \<not> falsy (light_entity (settings r)) \<and> lastMotionState r = Some ''off'' \<and>
         (\<exists>e. fetch = Inr e \<and> state e = ''on'')
      then 1 else 0) \<and>
   count_list (snd (countdown_fired now fetch call m l d r)) UpdateTriggerCount = 0 \<and>
   count_list (snd (checkAndArm anow afetch out a)) UpdateTriggerCount =
     (if errorCount a < maxErrors a \<and>
         (\<exists>e. afetch = Inr e \<and>
            \<not> (isInArmingWindow (getHours anow) (getMinutes anow) \<and>
               state e = ''disarmed'' \<and>
               (\<exists>la. lastArmAttempt a = Some la \<and>
                  armCooldown a - (getTime anow - getTime la) > 0)))
      then 1 else 0)"
  by (simp only: count_checkMotionState count_countdown_fired count_checkAndArm)

text \<open>
  C9 as stated fails in both runners: an on-to-off poll of the Edge-Triggered Runner
  detects the transition and makes no trigger-count update, and a poll of the
  Scheduled-Window Runner that finds the panel state unchanged makes one.
\<close>

theorem trigger_count_counterexample:
  "lastMotionState (started_motion ''on'') = Some ''on'' \<and>
   lastMotionState (fst (fire_motion 1 750 (Inr (entity ''off'')) None (started_motion ''on''))) =
     Some ''off'' \<and>
   snd (fire_motion 1 750 (Inr (entity ''off'')) None (started_motion ''on'')) =
     [GetState ''m1'', LogEvent ''triggered'' ''Motion stopped - starting 15s countdown''] \<and>
   lastAlarmState (struck_alarm 0) = Some ''armed_away'' \<and>
   snd (fire_alarm 1 (clock 30000 12 0) (Inr (entity ''armed_away'')) arm_ok (struck_alarm 0)) =
     [GetState ''alarm_control_panel.home_alarm'', UpdateTriggerCount]"
  by code_simp

subsection \<open>What stop cancels\<close>

text \<open>
  C6, as the code has it. Let the runner be in any state reached from its construction.
  A \<open>stop\<close> of a runner that is not running does nothing. A \<open>stop\<close> of a running
  Edge-Triggered Runner logs the \<open>stopped\<close> event, resets both handles, and leaves no
  polling timer pending and no timer pending under the handle \<open>timeoutId\<close> held. A
  \<open>stop\<close> of a running Scheduled-Window Runner logs the \<open>stopped\<close> event, resets the
  polling handle and leaves no polling timer pending; every pending 5-second
  verification timer stays pending, since its handle was never kept.
\<close>

theorem stop_cancels_tracked_timers:
  assumes "r = fst (run_motion evs (new_motion_runner st))"
      and "a = fst (run_alarm evs' new_alarm_runner)"
  shows
    "(\<not> isRunning r \<longrightarrow> stop_motion r = (r, [])) \<and>
     (isRunning r \<longrightarrow>
        snd (stop_motion r) = [LogEvent ''stopped'' ''Automation stopped''] \<and>
        \<not> isRunning (fst (stop_motion r)) \<and>
        pollInterval (fst (stop_motion r)) = None \<and>
        timeoutId (fst (stop_motion r)) = None \<and>
        (\<forall>t \<in> set (timers (fst (stop_motion r))). callback t \<noteq> PollTick) \<and>
        (\<forall>c. timeoutId r = Some c \<longrightarrow>
           find (\<lambda>t. tid t = c) (timers (fst (stop_motion r))) = None)) \<and>
     (\<not> isRunning a \<longrightarrow> stop_alarm a = (a, [])) \<and>
     (isRunning a \<longrightarrow>
        snd (stop_alarm a) = [LogEvent ''stopped'' ''Alarm auto-arm automation stopped''] \<and>
        \<not> isRunning (fst (stop_alarm a)) \<and>
        checkInterval (fst (stop_alarm a)) = None \<and>
        (\<forall>t \<in> set (timers (fst (stop_alarm a))). callback t \<noteq> CheckTick) \<and>
        timers (fst (stop_alarm a)) = filter (\<lambda>t. callback t = VerifyArm) (timers a))"
proof -
  have ir: "inv_motion r"
    unfolding assms(1) by (intro inv_motion_run inv_motion_new)
  have ia: "inv_alarm a"
    unfolding assms(2) by (intro inv_alarm_run inv_alarm_new)
  have m0: "\<not> isRunning r \<longrightarrow> stop_motion r = (r, [])"
    by (simp add: stop_motion_def)
  have a0: "\<not> isRunning a \<longrightarrow> stop_alarm a = (a, [])"
    by (simp add: stop_alarm_def)
  have m1: "isRunning r \<longrightarrow>
        snd (stop_motion r) = [LogEvent ''stopped'' ''Automation stopped''] \<and>
        \<not> isRunning (fst (stop_motion r)) \<and>
        pollInterval (fst (stop_motion r)) = None \<and>
        timeoutId (fst (stop_motion r)) = None \<and>
        (\<forall>t \<in> set (timers (fst (stop_motion r))). callback t \<noteq> PollTick) \<and>
        (\<forall>c. timeoutId r = Some c \<longrightarrow>
           find (\<lambda>t. tid t = c) (timers (fst (stop_motion r))) = None)"
    using ir by (auto simp: stop_motion_running inv_motion_def find_None_iff)
  have keep: "isRunning a \<Longrightarrow>
      filter (\<lambda>t. \<forall>x. checkInterval a = Some x \<longrightarrow> tid t \<noteq> x) (timers a) =
      filter (\<lambda>t. callback t = VerifyArm) (timers a)"
  proof (rule filter_cong [OF refl])
    fix t assume "isRunning a" and t: "t \<in> set (timers a)"
    show "(\<forall>x. checkInterval a = Some x \<longrightarrow> tid t \<noteq> x) = (callback t = VerifyArm)"
      using ia t by (cases "callback t") (auto simp: inv_alarm_def)
  qed
  have a1: "isRunning a \<longrightarrow>
        snd (stop_alarm a) = [LogEvent ''stopped'' ''Alarm auto-arm automation stopped''] \<and>
        \<not> isRunning (fst (stop_alarm a)) \<and>
        checkInterval (fst (stop_alarm a)) = None \<and>
        (\<forall>t \<in> set (timers (fst (stop_alarm a))). callback t \<noteq> CheckTick) \<and>
        timers (fst (stop_alarm a)) = filter (\<lambda>t. callback t = VerifyArm) (timers a)"
    using keep by (auto simp: stop_alarm_running)
  from m0 m1 a0 a1 show ?thesis by blast
qed

theorem stop_cancels_tracked_timers_witness:
  "timers counting_motion =
     [Timer 1 750 True PollTick, Timer 2 15000 False (Countdown ''m1'' ''l1'' 15)] \<and>
   timers (fst (stop_motion counting_motion)) = [] \<and>
   \<not> isRunning (fst (stop_motion counting_motion)) \<and>
   stop_alarm armed_then_stopped = (armed_then_stopped, []) \<and>
   \<not> isRunning (fst (stop_alarm (struck_alarm 0))) \<and>
   checkInterval (fst (stop_alarm (struck_alarm 0))) = None \<and>
   timers (fst (stop_alarm (struck_alarm 0))) = []"
proof -
  have f: "\<not> isRunning armed_then_stopped" "isRunning (struck_alarm 0)"
          "timers (fst (stop_motion counting_motion)) = []"
          "timers (struck_alarm 0) = [Timer 1 30000 True CheckTick]"
    by code_simp+
  show ?thesis
    using stop_cancels_tracked_timers [OF counting_motion_def armed_then_stopped_def]
          stop_cancels_tracked_timers [OF counting_motion_def struck_alarm_def, of 0]
    by (simp add: counting_motion_facts f)
qed

text \<open>
  C6 as stated fails for the Scheduled-Window Runner: after \<open>stop\<close> has returned, the
  5-second verification timer set by the arm sequence is still pending, and when it
  fires it queries the panel and writes a history entry.
\<close>

theorem verification_timer_survives_stop:
  "\<not> isRunning armed_then_stopped \<and>
   timers armed_then_stopped = [Timer 2 5000 False VerifyArm] \<and>
   snd (fire_alarm 2 (clock 5000 22 0) (Inr (entity ''armed_away'')) arm_ok armed_then_stopped) =
     [GetState ''alarm_control_panel.home_alarm''] \<and>
   map action (stateHistory armed_then_stopped) = [''initialized'', ''arming'', ''armed''] \<and>
   map action
     (stateHistory
        (fst (fire_alarm 2 (clock 5000 22 0) (Inr (entity ''armed_away'')) arm_ok
                armed_then_stopped))) =
     [''initialized'', ''arming'', ''armed'', ''verify_success'']"
  by code_simp

subsection \<open>The arm cooldown\<close>

lemma last_slice_last: "0 < n \<Longrightarrow> last (slice_last n (xs @ [x])) = x"
  by (simp add: slice_last_def)

lemma remainingMinutes_ceiling:
  "60000 * (remainingMinutes c - 1) < c \<and> c \<le> 60000 * remainingMinutes c"
proof -
  define q where "q = (- c) div 60000"
  define m where "m = (- c) mod 60000"
  have "q * 60000 + m = - c"
    unfolding q_def m_def by simp
  moreover have "0 \<le> m" and "m < 60000"
    unfolding m_def by simp_all
  moreover have "remainingMinutes c = - q"
    unfolding remainingMinutes_def q_def by simp
  ultimately show ?thesis
    by simp
qed

lemma no_call_no_action:
  "CallService s d t \<notin> set (snd (stop_alarm r))"
  "CallService s d t \<notin> set (snd (verifyArmStatus now fetch r))"
  "CallService s d t \<notin> set (snd (initializeState_alarm now fetch r))"
  by (simp_all add: stop_alarm_def verifyArmStatus_def initializeState_alarm_def Let_def
      split: sum.splits)

lemma lastArmAttempt_kept:
  "lastArmAttempt (fst (stop_alarm r)) = lastArmAttempt r"
  "lastArmAttempt (fst (verifyArmStatus now fetch r)) = lastArmAttempt r"
  "lastArmAttempt (fst (initializeState_alarm now fetch r)) = lastArmAttempt r"
  "lastArmAttempt (clearTimer i r) = lastArmAttempt r"
  by (simp_all add: stop_alarm_def verifyArmStatus_def initializeState_alarm_def
      clearTimer_def addStateHistory_alarm_eq Let_def split: sum.splits option.splits)

text \<open>The three ways \<^verbatim>\<open>checkAndArm\<close> continues after a successful fetch.\<close>

lemma alarm_state_fetched_cooldown:
  assumes "isInArmingWindow (getHours now) (getMinutes now)" and "cur = ''disarmed''"
      and "lastArmAttempt r = Some la" and "armCooldown r - (getTime now - getTime la) > 0"
  shows "lastArmAttempt (fst (alarm_state_fetched now cur out r)) = Some la"
    and "snd (alarm_state_fetched now cur out r) =
           (if lastAlarmState r \<noteq> None \<and> lastAlarmState r \<noteq> Some cur
            then [LogEvent ''triggered''
                    (''Alarm state changed: '' @ the (lastAlarmState r) @ '' -> '' @ cur @
                     '' (Window: Active)'')]
            else [])"
    and "last (stateHistory (fst (alarm_state_fetched now cur out r))) =
           \<lparr>timestamp = getTime now, action = ''cooldown'',
            details = ''Waiting '' @
              show_int (remainingMinutes (armCooldown r - (getTime now - getTime la))) @
              ''m before next arm attempt'',
            alarmState = Some cur, inWindow = True\<rparr>"
  using assms
  by (simp_all add: alarm_state_fetched_def addStateHistory_alarm_eq last_slice_last
      Let_def split_def)

lemma alarm_state_fetched_arm:
  assumes "isInArmingWindow (getHours now) (getMinutes now)" and "cur = ''disarmed''"
      and "\<forall>la. lastArmAttempt r = Some la \<longrightarrow> \<not> armCooldown r - (getTime now - getTime la) > 0"
  shows "\<exists>r3 es2. lastArmAttempt r3 = lastArmAttempt r \<and>
           alarm_state_fetched now cur out r =
             ((fst (armAlarmWithValidation now out r3))\<lparr>lastArmAttempt := Some now\<rparr>,
              es2 @ snd (armAlarmWithValidation now out r3) @ [UpdateTriggerCount])"
proof (cases "lastAlarmState r \<noteq> None \<and> lastAlarmState r \<noteq> Some cur")
  case True
  let ?r3 = "(addStateHistory_alarm now ''state_change''
               (the (lastAlarmState r) @ '' -> '' @ cur) (r\<lparr>errorCount := 0\<rparr>))
              \<lparr>lastAlarmState := Some cur\<rparr>"
  have "lastArmAttempt ?r3 = lastArmAttempt r"
    by (simp add: addStateHistory_alarm_eq)
  moreover have "alarm_state_fetched now cur out r =
      ((fst (armAlarmWithValidation now out ?r3))\<lparr>lastArmAttempt := Some now\<rparr>,
       [LogEvent ''triggered''
          (''Alarm state changed: '' @ the (lastAlarmState r) @ '' -> '' @ cur @
           '' (Window: Active)'')] @
       snd (armAlarmWithValidation now out ?r3) @ [UpdateTriggerCount])"
    using assms True
    by (cases "lastArmAttempt r")
      (simp_all add: alarm_state_fetched_def addStateHistory_alarm_eq Let_def split_def)
  ultimately show ?thesis by blast
next
  case False
  let ?r3 = "r\<lparr>errorCount := 0, lastAlarmState := Some cur\<rparr>"
  have "lastArmAttempt ?r3 = lastArmAttempt r" by simp
  moreover have "alarm_state_fetched now cur out r =
      ((fst (armAlarmWithValidation now out ?r3))\<lparr>lastArmAttempt := Some now\<rparr>,
       [] @ snd (armAlarmWithValidation now out ?r3) @ [UpdateTriggerCount])"
    using assms False
    by (cases "lastArmAttempt r")
      (auto simp: alarm_state_fetched_def addStateHistory_alarm_eq Let_def split_def)
  ultimately show ?thesis by blast
qed

lemma alarm_state_fetched_idle:
  assumes "\<not> (isInArmingWindow (getHours now) (getMinutes now) \<and> cur = ''disarmed'')"
  shows "lastArmAttempt (fst (alarm_state_fetched now cur out r)) = lastArmAttempt r"
    and "CallService s d t \<notin> set (snd (alarm_state_fetched now cur out r))"
  using assms
  by (auto simp: alarm_state_fetched_def no_action_def addStateHistory_alarm_eq
      Let_def split_def)

text \<open>Every update of \<open>lastArmAttempt\<close> is at least the cooldown later than the value
  it replaces, and a service call is made only by a step that updates it.\<close>

lemma alarm_state_fetched_attempt:
  assumes "armCooldown r = 300000"
  shows "(lastArmAttempt (fst (alarm_state_fetched now cur out r)) = lastArmAttempt r \<and>
          (\<forall>s d t. CallService s d t \<notin> set (snd (alarm_state_fetched now cur out r)))) \<or>
         (lastArmAttempt (fst (alarm_state_fetched now cur out r)) = Some now \<and>
          (\<forall>la. lastArmAttempt r = Some la \<longrightarrow> getTime now - getTime la \<ge> 300000))"
proof (cases "isInArmingWindow (getHours now) (getMinutes now) \<and> cur = ''disarmed''")
  case False
  then show ?thesis
    using alarm_state_fetched_idle [where now = now and cur = cur and out = out and r = r]
    by blast
next
  case True
  show ?thesis
  proof (cases "\<exists>la. lastArmAttempt r = Some la \<and> armCooldown r - (getTime now - getTime la) > 0")
    case True
    then obtain la where la: "lastArmAttempt r = Some la"
        "armCooldown r - (getTime now - getTime la) > 0" by blast
    from \<open>isInArmingWindow (getHours now) (getMinutes now) \<and> cur = ''disarmed''\<close>
    have "lastArmAttempt (fst (alarm_state_fetched now cur out r)) = lastArmAttempt r"
      and "\<forall>s d t. CallService s d t \<notin> set (snd (alarm_state_fetched now cur out r))"
      using alarm_state_fetched_cooldown [of now cur r la out] la by auto
    then show ?thesis by blast
  next
    case False
    then have nc: "\<forall>la. lastArmAttempt r = Some la \<longrightarrow>
                     \<not> armCooldown r - (getTime now - getTime la) > 0" by blast
    from \<open>isInArmingWindow (getHours now) (getMinutes now) \<and> cur = ''disarmed''\<close>
    have w: "isInArmingWindow (getHours now) (getMinutes now)" and cd: "cur = ''disarmed''"
      by simp_all
    obtain r3 es2 where "alarm_state_fetched now cur out r =
             ((fst (armAlarmWithValidation now out r3))\<lparr>lastArmAttempt := Some now\<rparr>,
              es2 @ snd (armAlarmWithValidation now out r3) @ [UpdateTriggerCount])"
      using alarm_state_fetched_arm [OF w cd nc, of out] by blast
    then have "lastArmAttempt (fst (alarm_state_fetched now cur out r)) = Some now"
      by simp
    moreover have "\<forall>la. lastArmAttempt r = Some la \<longrightarrow> getTime now - getTime la \<ge> 300000"
      using nc assms by auto
    ultimately show ?thesis by blast
  qed
qed

lemma checkAndArm_attempt:
  assumes "armCooldown r = 300000"
  shows "(lastArmAttempt (fst (checkAndArm now fetch out r)) = lastArmAttempt r \<and>
          (\<forall>s d t. CallService s d t \<notin> set (snd (checkAndArm now fetch out r)))) \<or>
         (lastArmAttempt (fst (checkAndArm now fetch out r)) = Some now \<and>
          (\<forall>la. lastArmAttempt r = Some la \<longrightarrow> getTime now - getTime la \<ge> 300000))"
proof (cases "errorCount r < maxErrors r")
  case False
  then show ?thesis
    by (simp add: checkAndArm_gate lastArmAttempt_kept no_call_no_action)
next
  case True
  show ?thesis
  proof (cases fetch)
    case (Inl msg)
    then show ?thesis
      using True by (simp add: checkAndArm_failed addStateHistory_alarm_eq)
  next
    case (Inr e)
    then show ?thesis
      using True alarm_state_fetched_attempt [OF assms, of now "state e" out]
      by (simp add: checkAndArm_fetched)
  qed
qed

lemma step_alarm_attempt:
  assumes "inv_alarm r"
  shows "(lastArmAttempt (fst (step_alarm ev r)) = lastArmAttempt r \<and>
          (\<forall>s d t. CallService s d t \<notin> set (snd (step_alarm ev r)))) \<or>
         (\<exists>now. lastArmAttempt (fst (step_alarm ev r)) = Some now \<and>
            (\<forall>la. lastArmAttempt r = Some la \<longrightarrow> getTime now - getTime la \<ge> 300000))"
proof (cases ev)
  case (Start_alarm now fetch0 fetch out)
  show ?thesis
  proof (cases "isRunning r")
    case True
    then show ?thesis using Start_alarm by (simp add: start_alarm_def)
  next
    case False
    let ?r3 = "r\<lparr>isRunning := True, errorCount := 0,
                  timers := timers r @ [Timer (nextTimerId r) 30000 True CheckTick],
                  nextTimerId := Suc (nextTimerId r),
                  checkInterval := Some (nextTimerId r)\<rparr>"
    let ?r4 = "fst (initializeState_alarm now fetch0 ?r3)"
    have c: "armCooldown ?r4 = 300000"
      using inv_alarm_init [OF inv_alarm_started [OF assms False], of now fetch0]
      by (simp add: inv_alarm_def)
    have l: "lastArmAttempt ?r4 = lastArmAttempt r"
      by (simp add: lastArmAttempt_kept)
    have s: "step_alarm ev r =
        (fst (checkAndArm now fetch out ?r4),
         snd (initializeState_alarm now fetch0 ?r3) @ snd (checkAndArm now fetch out ?r4) @
         [LogEvent ''started''
            ''Alarm auto-arm automation started - checking every 30 seconds''])"
      using False Start_alarm by (simp add: start_alarm_def setTimer_def Let_def split_def)
    show ?thesis
      using checkAndArm_attempt [OF c, of now fetch out] l
      by (auto simp: s no_call_no_action)
  qed
next
  case Stop_alarm
  then show ?thesis by (simp add: lastArmAttempt_kept no_call_no_action)
next
  case (Fire_alarm i now fetch out)
  have c: "armCooldown r = 300000" "armCooldown (clearTimer i r) = 300000"
    using assms by (simp_all add: inv_alarm_def clearTimer_def)
  show ?thesis
  proof (cases "find (\<lambda>t. tid t = i) (timers r)")
    case None
    then show ?thesis using Fire_alarm by (simp add: fire_alarm_def)
  next
    case (Some t)
    show ?thesis
    proof (cases "callback t")
      case CheckTick
      then show ?thesis
        using Some Fire_alarm checkAndArm_attempt [OF c(1), of now fetch out]
          checkAndArm_attempt [OF c(2), of now fetch out]
        by (auto simp: fire_alarm_def lastArmAttempt_kept)
    next
      case VerifyArm
      then show ?thesis
        using Some Fire_alarm
        by (simp add: fire_alarm_def lastArmAttempt_kept no_call_no_action)
    qed
  qed
qed

lemma arm_attempts_spaced:
  "inv_alarm r \<Longrightarrow>
     sorted_wrt (\<lambda>x y. getTime y - getTime x \<ge> 300000) (arm_attempts evs r) \<and>
     (\<forall>x \<in> set (arm_attempts evs r). \<forall>la. lastArmAttempt r = Some la \<longrightarrow>
        getTime x - getTime la \<ge> 300000)"
proof (induction evs arbitrary: r)
  case Nil
  then show ?case by simp
next
  case (Cons e evs)
  let ?r1 = "fst (step_alarm e r)"
  have i1: "inv_alarm ?r1" using Cons.prems by (rule inv_alarm_step)
  note ih = Cons.IH [OF i1]
  show ?case
  proof (cases "lastArmAttempt ?r1 = lastArmAttempt r")
    case True
    then have "arm_attempts (e # evs) r = arm_attempts evs ?r1"
      by (simp add: Let_def split: option.splits)
    then show ?thesis using ih True by simp
  next
    case False
    with step_alarm_attempt [OF Cons.prems, of e]
    obtain now where now: "lastArmAttempt ?r1 = Some now"
        "\<forall>la. lastArmAttempt r = Some la \<longrightarrow> getTime now - getTime la \<ge> 300000"
      by blast
    with False have a: "arm_attempts (e # evs) r = now # arm_attempts evs ?r1"
      by (simp add: Let_def)
    have after: "\<forall>x \<in> set (arm_attempts evs ?r1). getTime x - getTime now \<ge> 300000"
      using ih now(1) by blast
    have "\<forall>x \<in> set (arm_attempts evs ?r1). \<forall>la. lastArmAttempt r = Some la \<longrightarrow>
            getTime x - getTime la \<ge> 300000"
      using after now(2) by fastforce
    then show ?thesis
      unfolding a using ih after now(2) by simp
  qed
qed

text \<open>
  C5. The arm cooldown of the Scheduled-Window Runner. Along every run from the
  construction of the runner, the successive values of \<open>lastArmAttempt\<close> are at least
  300000 ms (5 minutes) apart, and a step that makes any service call is one that
  gives \<open>lastArmAttempt\<close> a new value: no two arm sequences start less than 5 minutes
  apart. Let the runner be in any reached state with its polling timer pending and fewer
  than 10 errors, and let a poll at time \<open>now\<close>, inside the window, fetch the state
  \<open>disarmed\<close>.
  (a) If there was no attempt yet or at least 5 minutes have passed since
  \<open>lastArmAttempt\<close>, the poll runs \<open>armAlarmWithValidation\<close> and sets \<open>lastArmAttempt\<close> to
  \<open>now\<close>, the clock reading taken at the start of the poll, whatever the outcomes of the
  calls of the arm sequence are.
  (b) If less than 5 minutes have passed, the poll makes no call besides its fetch (and
  the event of a state change), leaves \<open>lastArmAttempt\<close> as it is, and its newest history
  entry is a \<open>cooldown\<close> entry that names the remaining time in minutes, rounded up.
\<close>

theorem arm_cooldown:
  assumes "a = fst (run_alarm evs new_alarm_runner)"
      and "find (\<lambda>t. tid t = j) (timers a) = Some u" and "callback u = CheckTick"
      and "errorCount a < 10"
      and "isInArmingWindow (getHours now) (getMinutes now)" and "state e = ''disarmed''"
  shows
    "sorted_wrt (\<lambda>x y. getTime y - getTime x \<ge> 300000) (arm_attempts evs' new_alarm_runner) \<and>
     (\<forall>ev. (\<exists>s d t. CallService s d t \<in> set (snd (step_alarm ev a))) \<longrightarrow>
        lastArmAttempt (fst (step_alarm ev a)) \<noteq> lastArmAttempt a) \<and>
     ((\<forall>la. lastArmAttempt a = Some la \<longrightarrow> getTime now - getTime la \<ge> 300000) \<longrightarrow>
        lastArmAttempt (fst (fire_alarm j now (Inr e) out a)) = Some now \<and>
        (\<exists>a3 es2. lastArmAttempt a3 = lastArmAttempt a \<and>
           fire_alarm j now (Inr e) out a =
             ((fst (armAlarmWithValidation now out a3))\<lparr>lastArmAttempt := Some now\<rparr>,
              GetState alarm_panel # es2 @ snd (armAlarmWithValidation now out a3) @
              [UpdateTriggerCount]))) \<and>
     (\<forall>la. lastArmAttempt a = Some la \<and> getTime now - getTime la < 300000 \<longrightarrow>
        lastArmAttempt (fst (fire_alarm j now (Inr e) out a)) = Some la \<and>
        snd (fire_alarm j now (Inr e) out a) =
          GetState alarm_panel #
          (if lastAlarmState a \<noteq> None \<and> lastAlarmState a \<noteq> Some ''disarmed''
           then [LogEvent ''triggered''
                   (''Alarm state changed: '' @ the (lastAlarmState a) @
                    '' -> disarmed (Window: Active)'')]
           else []) \<and>
        last (stateHistory (fst (fire_alarm j now (Inr e) out a))) =
          \<lparr>timestamp = getTime now, action = ''cooldown'',
           details = ''Waiting '' @
             show_int (remainingMinutes (300000 - (getTime now - getTime la))) @
             ''m before next arm attempt'',
           alarmState = Some ''disarmed'', inWindow = True\<rparr> \<and>
        60000 * (remainingMinutes (300000 - (getTime now - getTime la)) - 1)
          < 300000 - (getTime now - getTime la) \<and>
        300000 - (getTime now - getTime la)
          \<le> 60000 * remainingMinutes (300000 - (getTime now - getTime la)))"
proof -
  have ia: "inv_alarm a"
    unfolding assms(1) by (intro inv_alarm_run inv_alarm_new)
  note pa = pending_poll_alarm [OF ia assms(2,3)]
  have lt: "errorCount a < maxErrors a" using assms(4) pa(4) by simp
  have cd: "armCooldown a = 300000" using ia by (simp add: inv_alarm_def)
  have f: "fire_alarm j now (Inr e) out a =
      (fst (alarm_state_fetched now ''disarmed'' out a),
       GetState alarm_panel # snd (alarm_state_fetched now ''disarmed'' out a))"
    by (simp add: pa(1) checkAndArm_fetched [OF lt] assms(6))
  have t: "sorted_wrt (\<lambda>x y. getTime y - getTime x \<ge> 300000)
             (arm_attempts evs' new_alarm_runner)"
    using arm_attempts_spaced [OF inv_alarm_new, of evs'] by simp
  have s: "\<forall>ev. (\<exists>s d t. CallService s d t \<in> set (snd (step_alarm ev a))) \<longrightarrow>
        lastArmAttempt (fst (step_alarm ev a)) \<noteq> lastArmAttempt a"
  proof (intro allI impI)
    fix ev
    assume c: "\<exists>s d t. CallService s d t \<in> set (snd (step_alarm ev a))"
    with step_alarm_attempt [OF ia, of ev]
    obtain now' where n: "lastArmAttempt (fst (step_alarm ev a)) = Some now'"
        "\<forall>la. lastArmAttempt a = Some la \<longrightarrow> getTime now' - getTime la \<ge> 300000"
      by blast
    show "lastArmAttempt (fst (step_alarm ev a)) \<noteq> lastArmAttempt a"
    proof
      assume "lastArmAttempt (fst (step_alarm ev a)) = lastArmAttempt a"
      with n have "getTime now' - getTime now' \<ge> 300000" by simp
      then show False by simp
    qed
  qed
  have x: "(\<forall>la. lastArmAttempt a = Some la \<longrightarrow> getTime now - getTime la \<ge> 300000) \<longrightarrow>
        lastArmAttempt (fst (fire_alarm j now (Inr e) out a)) = Some now \<and>
        (\<exists>a3 es2. lastArmAttempt a3 = lastArmAttempt a \<and>
           fire_alarm j now (Inr e) out a =
             ((fst (armAlarmWithValidation now out a3))\<lparr>lastArmAttempt := Some now\<rparr>,
              GetState alarm_panel # es2 @ snd (armAlarmWithValidation now out a3) @
              [UpdateTriggerCount]))"
  proof
    assume "\<forall>la. lastArmAttempt a = Some la \<longrightarrow> getTime now - getTime la \<ge> 300000"
    then have nc: "\<forall>la. lastArmAttempt a = Some la \<longrightarrow>
                     \<not> armCooldown a - (getTime now - getTime la) > 0"
      using cd by auto
    obtain a3 es2 where a3: "lastArmAttempt a3 = lastArmAttempt a"
        "alarm_state_fetched now ''disarmed'' out a =
           ((fst (armAlarmWithValidation now out a3))\<lparr>lastArmAttempt := Some now\<rparr>,
            es2 @ snd (armAlarmWithValidation now out a3) @ [UpdateTriggerCount])"
      using alarm_state_fetched_arm [OF assms(5) refl nc, of out] by blast
    then show "lastArmAttempt (fst (fire_alarm j now (Inr e) out a)) = Some now \<and>
        (\<exists>a3 es2. lastArmAttempt a3 = lastArmAttempt a \<and>
           fire_alarm j now (Inr e) out a =
             ((fst (armAlarmWithValidation now out a3))\<lparr>lastArmAttempt := Some now\<rparr>,
              GetState alarm_panel # es2 @ snd (armAlarmWithValidation now out a3) @
              [UpdateTriggerCount]))"
      unfolding f by auto
  qed
  have y: "\<forall>la. lastArmAttempt a = Some la \<and> getTime now - getTime la < 300000 \<longrightarrow>
        lastArmAttempt (fst (fire_alarm j now (Inr e) out a)) = Some la \<and>
        snd (fire_alarm j now (Inr e) out a) =
          GetState alarm_panel #
          (if lastAlarmState a \<noteq> None \<and> lastAlarmState a \<noteq> Some ''disarmed''
           then [LogEvent ''triggered''
                   (''Alarm state changed: '' @ the (lastAlarmState a) @
                    '' -> disarmed (Window: Active)'')]
           else []) \<and>
        last (stateHistory (fst (fire_alarm j now (Inr e) out a))) =
          \<lparr>timestamp = getTime now, action = ''cooldown'',
           details = ''Waiting '' @
             show_int (remainingMinutes (300000 - (getTime now - getTime la))) @
             ''m before next arm attempt'',
           alarmState = Some ''disarmed'', inWindow = True\<rparr> \<and>
        60000 * (remainingMinutes (300000 - (getTime now - getTime la)) - 1)
          < 300000 - (getTime now - getTime la) \<and>
        300000 - (getTime now - getTime la)
          \<le> 60000 * remainingMinutes (300000 - (getTime now - getTime la))"
  proof (intro allI impI)
    fix la
    assume h: "lastArmAttempt a = Some la \<and> getTime now - getTime la < 300000"
    then have pos: "armCooldown a - (getTime now - getTime la) > 0"
      using cd by simp
    note c = alarm_state_fetched_cooldown [OF assms(5) refl conjunct1 [OF h] pos, of out]
    show "lastArmAttempt (fst (fire_alarm j now (Inr e) out a)) = Some la \<and>
        snd (fire_alarm j now (Inr e) out a) =
          GetState alarm_panel #
          (if lastAlarmState a \<noteq> None \<and> lastAlarmState a \<noteq> Some ''disarmed''
           then [LogEvent ''triggered''
                   (''Alarm state changed: '' @ the (lastAlarmState a) @
                    '' -> disarmed (Window: Active)'')]
           else []) \<and>
        last (stateHistory (fst (fire_alarm j now (Inr e) out a))) =
          \<lparr>timestamp = getTime now, action = ''cooldown'',
           details = ''Waiting '' @
             show_int (remainingMinutes (300000 - (getTime now - getTime la))) @
             ''m before next arm attempt'',
           alarmState = Some ''disarmed'', inWindow = True\<rparr> \<and>
        60000 * (remainingMinutes (300000 - (getTime now - getTime la)) - 1)
          < 300000 - (getTime now - getTime la) \<and>
        300000 - (getTime now - getTime la)
          \<le> 60000 * remainingMinutes (300000 - (getTime now - getTime la))"
      using c remainingMinutes_ceiling [of "300000 - (getTime now - getTime la)"]
      unfolding f by (simp add: cd)
  qed
  from t s x y show ?thesis by blast
qed

lemma armed_alarm_facts:
  "find (\<lambda>t. tid t = 1) (timers armed_alarm) = Some (Timer 1 30000 True CheckTick)"
  "errorCount armed_alarm < 10"
  "lastArmAttempt armed_alarm = Some (clock 0 22 0)"
  "lastAlarmState armed_alarm = Some ''disarmed''"
  "isInArmingWindow (getHours (clock 30000 22 0)) (getMinutes (clock 30000 22 0))"
  "isInArmingWindow (getHours (clock 300000 22 5)) (getMinutes (clock 300000 22 5))"
  "state (entity ''disarmed'') = ''disarmed''"
  "getTime (clock 30000 22 0) - getTime (clock 0 22 0) < 300000"
  "getTime (clock 300000 22 5) - getTime (clock 0 22 0) \<ge> 300000"
  "remainingMinutes (300000 - (getTime (clock 30000 22 0) - getTime (clock 0 22 0))) = 5"
  by code_simp+

theorem arm_cooldown_witness:
  "lastArmAttempt armed_alarm = Some (clock 0 22 0) \<and>
   lastArmAttempt
     (fst (fire_alarm 1 (clock 30000 22 0) (Inr (entity ''disarmed'')) arm_ok armed_alarm)) =
     Some (clock 0 22 0) \<and>
   snd (fire_alarm 1 (clock 30000 22 0) (Inr (entity ''disarmed'')) arm_ok armed_alarm) =
     [GetState alarm_panel] \<and>
   action (last (stateHistory
     (fst (fire_alarm 1 (clock 30000 22 0) (Inr (entity ''disarmed'')) arm_ok armed_alarm)))) =
     ''cooldown'' \<and>
   lastArmAttempt
     (fst (fire_alarm 1 (clock 300000 22 5) (Inr (entity ''disarmed'')) arm_ok armed_alarm)) =
     Some (clock 300000 22 5) \<and>
   sorted_wrt (\<lambda>x y. getTime y - getTime x \<ge> 300000)
     (arm_attempts armed_events new_alarm_runner)"
proof -
  have p: "callback (Timer 1 30000 True CheckTick) = CheckTick" by simp
  note c = arm_cooldown [OF armed_alarm_def armed_alarm_facts(1) p armed_alarm_facts(2)
             armed_alarm_facts(5) armed_alarm_facts(7), of armed_events arm_ok]
  note g = arm_cooldown [OF armed_alarm_def armed_alarm_facts(1) p armed_alarm_facts(2)
             armed_alarm_facts(6) armed_alarm_facts(7), of armed_events arm_ok]
  from c have c1: "lastArmAttempt
       (fst (fire_alarm 1 (clock 30000 22 0) (Inr (entity ''disarmed'')) arm_ok armed_alarm)) =
       Some (clock 0 22 0) \<and>
     snd (fire_alarm 1 (clock 30000 22 0) (Inr (entity ''disarmed'')) arm_ok armed_alarm) =
       [GetState alarm_panel] \<and>
     action (last (stateHistory
       (fst (fire_alarm 1 (clock 30000 22 0) (Inr (entity ''disarmed'')) arm_ok
               armed_alarm)))) = ''cooldown''"
    using armed_alarm_facts(3,4,8) by simp
  from g have g1: "lastArmAttempt
       (fst (fire_alarm 1 (clock 300000 22 5) (Inr (entity ''disarmed'')) arm_ok armed_alarm)) =
       Some (clock 300000 22 5)"
    using armed_alarm_facts(3,9) by simp
  from c have "sorted_wrt (\<lambda>x y. getTime y - getTime x \<ge> 300000)
     (arm_attempts armed_events new_alarm_runner)" by blast
  with c1 g1 armed_alarm_facts(3) show ?thesis by blast
qed

subsection \<open>A countdown the runner loses track of\<close>

text \<open>
  The on-to-off branch overwrites \<open>timeoutId\<close> without clearing the timer it held. When
  the sensor goes from \<open>off\<close> through a third state back to \<open>on\<close> and \<open>off\<close>, the first
  countdown is still pending and no longer reachable through \<open>timeoutId\<close>: \<open>stop\<close> clears
  the polling timer and the second countdown only, and the first one still fires, and
  turns the light off if the sensor then reads \<open>off\<close>.
\<close>

lemma untracked_countdown_survives_stop:
  "\<not> isRunning (fst (run_motion twice_counting_events (new_motion_runner scenario_settings))) \<and>
   timers (fst (run_motion twice_counting_events (new_motion_runner scenario_settings))) =
     [Timer 2 15000 False (Countdown ''m1'' ''l1'' 15)] \<and>
   snd (fire_motion 2 15750 (Inr (entity ''off'')) None
          (fst (run_motion twice_counting_events (new_motion_runner scenario_settings)))) =
     [GetState ''m1'', CallService ''turn_off'' ''light'' ''l1'',
      LogEvent ''action_executed'' ''No motion for 15s - turned off l1'']"
  by code_simp

end
